theory Spec2Isabelle
  imports Complex_Main "HOL-Library.Sublist" "HOL-Library.Multiset"
begin

section \<open>Python values, strings and exceptions\<close>

text \<open>
  Python strings are modelled as \<open>string\<close>, the list of the bytes of their UTF-8
  encoding; every literal of the source is copied byte for byte (the source files store
  the bullet and the chart symbol as multi-byte sequences, which are written out with
  \<open>CHR\<close>). Python integers are \<open>int\<close>. A Python exception is a value: its class, whether
  the class derives from \<open>Exception\<close> (what \<open>except Exception\<close> tests), and \<open>str(e)\<close>.
\<close>

datatype py_exc = PyExc (exc_class: string) (is_Exception: bool) (exc_str: string)

definition IndexError :: py_exc where
  "IndexError = PyExc ''IndexError'' True ''list index out of range''"

definition TypeError :: "string \<Rightarrow> py_exc" where
  "TypeError msg = PyExc ''TypeError'' True msg"

definition AttributeError :: "string \<Rightarrow> py_exc" where
  "AttributeError msg = PyExc ''AttributeError'' True msg"

text \<open>
  The values generated code can bind to \<open>result\<close>. \<open>NpInt\<close> and \<open>NpFloat\<close> are the numpy
  scalar types listed in \<open>convert_to_serializable\<close>; \<open>NdArray\<close> carries the value of its
  \<open>tolist()\<close>. \<open>PyTable\<close> is an object with a \<open>to_dict\<close> attribute (a pandas DataFrame or
  Series): it carries what \<open>to_dict(orient="records")\<close>, \<open>columns.tolist()\<close> and
  \<open>list(shape)\<close> do on it, each either raising or returning. \<open>PyObject\<close> is any other
  object (a module, a set, ...), named by a label.
\<close>

datatype pyval =
    PyNone
  | PyBool bool
  | PyInt int
  | PyFloat real
  | PyStr string
  | NpInt int
  | NpFloat real
  | NdArray "pyval list"
  | PyDict "(pyval \<times> pyval) list"
  | PyList "pyval list"
  | PyTuple "pyval list"
  | PyTable "py_exc + pyval list" "py_exc + pyval list" "py_exc + nat list"
  | PyObject string

text \<open>\<open>sep.join(xs)\<close>.\<close>

fun py_join :: "string \<Rightarrow> string list \<Rightarrow> string" where
  "py_join sep [] = []"
| "py_join sep [x] = x"
| "py_join sep (x # y # ys) = x @ sep @ py_join sep (y # ys)"

text \<open>\<open>str(n)\<close> for an integer: the decimal digits, with a minus sign below zero.\<close>

definition digit_char :: "nat \<Rightarrow> char" where
  "digit_char d = char_of (48 + d)"

fun str_nat :: "nat \<Rightarrow> string" where
  "str_nat n = (if n < 10 then [digit_char n] else str_nat (n div 10) @ [digit_char (n mod 10)])"

definition str_int :: "int \<Rightarrow> string" where
  "str_int i = (if i < 0 then ''-'' @ str_nat (nat (- i)) else str_nat (nat i))"

text \<open>\<open>needle in haystack\<close> on strings: \<open>needle\<close> occurs as a contiguous substring.\<close>

primrec str_in :: "string \<Rightarrow> string \<Rightarrow> bool" where
  "str_in needle [] = (needle = [])"
| "str_in needle (c # cs) = (prefix needle (c # cs) \<or> str_in needle cs)"

text \<open>\<open>s.lower()\<close>, on the ASCII letters.\<close>

definition lower_char :: "char \<Rightarrow> char" where
  "lower_char c =
     (let n = (of_char c :: nat) in if 65 \<le> n \<and> n \<le> 90 then char_of (n + 32) else c)"

definition lower :: "string \<Rightarrow> string" where
  "lower s = map lower_char s"

text \<open>\<open>s.strip()\<close>, on the ASCII white space.\<close>

definition is_space :: "char \<Rightarrow> bool" where
  "is_space c = (let n = (of_char c :: nat) in (9 \<le> n \<and> n \<le> 13) \<or> (28 \<le> n \<and> n \<le> 32))"

definition strip :: "string \<Rightarrow> string" where
  "strip s = rev (dropWhile is_space (rev (dropWhile is_space s)))"

section \<open>The workflow state\<close>

text \<open>
  \<open>GraphState\<close> of \<open>pipeline/state.py\<close>. The fields that only carry data into the
  prompts (\<open>session_id\<close>, \<open>chat_history\<close>, \<open>file_data\<close>, \<open>parsed_files\<close>, the column
  lists, \<open>alignment_info\<close>, \<open>trend_insights\<close>) are left out: no routing function reads
  them and no node branches on them. Of a file descriptor only the name and the path are
  kept. An \<open>Optional\<close> field is an \<open>option\<close> (\<open>None\<close> is Python's \<open>None\<close>). For
  \<open>available_files\<close>, \<open>None\<close> stands for a state without the key, which
  \<open>state.get("available_files", default)\<close> replaces by its default.
\<close>

record file_info =
  filename :: "string option"
  filepath :: "string option"

record exec_result =
  success :: bool
  error :: "string option"
  traceback :: "string option"
  execution_time_ms :: "real option"

datatype result_data =
    RD_dataframe (rd_rows: "pyval list") (rd_columns: "pyval list") (rd_shape: "nat list")
  | RD_dict pyval
  | RD_list pyval
  | RD_value pyval

datatype plan = PlanDict (time_alignment_needed: bool) | PlanNotDict

record graph_state =
  user_query :: string
  available_files :: "file_info list option"
  intent :: "string option"
  operation_type :: "string option"
  plan :: "plan option"
  files_to_use :: "string list"
  generated_code :: "string option"
  code_valid :: bool
  validation_errors :: "string list"
  execution_result :: "exec_result option"
  result_data :: "result_data option"
  explanation :: "string option"
  recommendations :: "string list"
  final_response :: "string option"
  current_node :: string
  node_history :: "string list"
  errors :: "string list"
  retry_count :: int

text \<open>
  \<open>create_initial_state\<close>. A node returns a dictionary of the keys it changes and the
  orchestrator merges it into the state: a returned key replaces the field, except
  \<open>node_history\<close> and \<open>errors\<close>, declared with the reducer \<open>operator.add\<close>, to which the
  returned list is appended. Each node below is the state after that merge.
\<close>

definition create_initial_state :: "string \<Rightarrow> file_info list \<Rightarrow> graph_state" where
  "create_initial_state query files =
     \<lparr> user_query = query, available_files = Some files, intent = None,
       operation_type = None, plan = None, files_to_use = [], generated_code = None,
       code_valid = False, validation_errors = [], execution_result = None,
       result_data = None, explanation = None, recommendations = [],
       final_response = None, current_node = ''start'', node_history = [], errors = [],
       retry_count = 0 \<rparr>"

section \<open>Output nodes (\<open>pipeline/nodes/explain.py\<close>)\<close>

definition bullet :: string where
  "bullet = [CHR 0xC3, CHR 0xA2, CHR 0xE2, CHR 0x82, CHR 0xAC, CHR 0xC2, CHR 0xA2]"

definition error_header :: string where
  "error_header = ''I wasn't able to complete your analysis:\<newline>\<newline>''"

definition error_footer :: string where
  "error_footer = ''\<newline>\<newline>Please try rephrasing your question or check if the data contains the requested columns.''"

definition unknown_error :: string where
  "unknown_error = ''An unknown error occurred during analysis''"

definition handle_error :: "graph_state \<Rightarrow> graph_state" where
  "handle_error s =
     (let all_errors = errors s @ validation_errors s;
          all_errors = (if all_errors = [] then [unknown_error] else all_errors);
          error_message = error_header
            @ py_join ''\<newline>'' (map (\<lambda>e. bullet @ '' '' @ e) (take 3 all_errors))
            @ error_footer
      in s\<lparr> explanation := Some error_message,
            final_response := Some error_message,
            recommendations :=
              [''Try a simpler query first'', ''Check available column names in your files''],
            current_node := ''handle_error'',
            node_history := node_history s @ [''handle_error''] \<rparr>)"

definition issues_header :: string where
  "issues_header = ''I encountered some issues while processing your request:\<newline>''"

definition errors_response :: "string list \<Rightarrow> string" where
  "errors_response errs = issues_header @ py_join ''\<newline>'' (map (\<lambda>e. ''- '' @ e) errs)"

definition chart_symbol :: string where
  "chart_symbol =
     [CHR 0xC3, CHR 0xB0, CHR 0xC5, CHR 0xB8, CHR 0xE2, CHR 0x80, CHR 0x9C, CHR 0xC5, CHR 0xA0]"

definition row_summary :: "nat \<Rightarrow> string" where
  "row_summary n =
     ''\<newline>\<newline>'' @ chart_symbol @ '' *Result: '' @ str_nat n @ '' rows returned*''"

definition none_plus_str :: string where
  "none_plus_str = ''unsupported operand type(s) for +=: 'NoneType' and 'str'' @ [CHR 0x27]"

text \<open>
  \<open>return_chat\<close>. \<open>not explanation\<close> holds for \<open>None\<close> and for the empty string. A
  \<open>result_data\<close> of type \<open>dataframe\<close> whose \<open>data\<close> list is not empty appends the row
  summary with \<open>+=\<close>, which raises \<open>TypeError\<close> when \<open>final_response\<close> is \<open>None\<close>.
\<close>

definition return_chat :: "graph_state \<Rightarrow> py_exc + graph_state" where
  "return_chat s =
     (let final_response =
            (if errors s \<noteq> [] \<and> (explanation s = None \<or> explanation s = Some [])
             then Some (errors_response (errors s))
             else explanation s);
          finish = (\<lambda>r. s\<lparr> final_response := r, current_node := ''return_chat'',
                              node_history := node_history s @ [''return_chat''] \<rparr>)
      in case result_data s of
           Some (RD_dataframe rows cols shp) \<Rightarrow>
             if rows \<noteq> [] then
               (case final_response of
                  None \<Rightarrow> Inl (TypeError none_plus_str)
                | Some r \<Rightarrow> Inr (finish (Some (r @ row_summary (length rows)))))
             else Inr (finish final_response)
         | _ \<Rightarrow> Inr (finish final_response))"

text \<open>
  The response body as the specification words it: the explanation when one is present
  (a non-empty string), and otherwise the text built from the accumulated errors.
\<close>

definition spec_response_body :: "graph_state \<Rightarrow> string" where
  "spec_response_body s =
     (case explanation s of
        Some e \<Rightarrow> if e \<noteq> [] then e else errors_response (errors s)
      | None \<Rightarrow> errors_response (errors s))"

definition summary_suffix :: "graph_state \<Rightarrow> string" where
  "summary_suffix s =
     (case result_data s of
        Some (RD_dataframe rows cols shp) \<Rightarrow>
          if rows \<noteq> [] then row_summary (length rows) else []
      | _ \<Rightarrow> [])"

subsection \<open>Properties of the output nodes\<close>

text \<open>
  Claim C6. For every state, \<open>handle_error\<close> builds the user-facing message from
  \<open>errors @ validation_errors\<close>: the fixed header, one bullet line for each of the first three
  entries in their original order, and the fixed footer. When both lists are empty the
  single entry shown is the unknown-error text. The message is never empty, and it is
  stored both as the explanation and as the final response.
\<close>

theorem handle_error_message:
  fixes s :: graph_state
  defines "shown \<equiv> (if errors s @ validation_errors s = [] then [unknown_error]
                      else take 3 (errors s @ validation_errors s))"
  shows "final_response (handle_error s) =
           Some (error_header @ py_join ''\<newline>'' (map (\<lambda>e. bullet @ '' '' @ e) shown)
                 @ error_footer)
         \<and> explanation (handle_error s) = final_response (handle_error s)
         \<and> final_response (handle_error s) \<noteq> Some []
         \<and> shown \<noteq> [] \<and> length shown \<le> 3"
  unfolding shown_def by (auto simp: handle_error_def Let_def error_header_def)

text \<open>
  Claim C7, as the code has it. When the explanation is a string (both nodes that lead
  to \<open>return_chat\<close> store one), \<open>return_chat\<close> returns, and the final response is the
  explanation, unless the explanation is empty and the errors list is not, in which case
  it is the text built from the errors; a result of type \<open>dataframe\<close> with \<open>n > 0\<close> rows
  appends the line saying that \<open>n\<close> rows were returned.
\<close>

theorem return_chat_response:
  assumes "explanation s = Some e"
  shows "\<exists>s'. return_chat s = Inr s' \<and>
           final_response s' =
             Some ((if errors s \<noteq> [] \<and> e = [] then errors_response (errors s) else e)
                   @ summary_suffix s)"
  using assms
  by (auto simp: return_chat_def summary_suffix_def Let_def
           split: option.splits result_data.splits)

lemma row_summary_7:
  "row_summary 7 = ''\<newline>\<newline>'' @ chart_symbol @ '' *Result: 7 rows returned*''"
  by code_simp

theorem return_chat_response_witness:
  "\<exists>s'. return_chat ((create_initial_state ''q'' [])
             \<lparr> explanation := Some ''Done.'',
               result_data := Some (RD_dataframe (replicate 7 (PyDict [])) [] [7, 0]) \<rparr>) = Inr s'
        \<and> final_response s' =
            Some (''Done.\<newline>\<newline>'' @ chart_symbol @ '' *Result: 7 rows returned*'')"
  using return_chat_response
    [of "(create_initial_state ''q'' [])
           \<lparr> explanation := Some ''Done.'',
             result_data := Some (RD_dataframe (replicate 7 (PyDict [])) [] [7, 0]) \<rparr>"
        "''Done.''"]
  by (simp add: create_initial_state_def summary_suffix_def row_summary_7)

text \<open>
  The claim as worded fails where the explanation is empty and no error was recorded:
  the final response is then the empty explanation, not the text built from the errors.
\<close>

theorem return_chat_counterexample:
  "return_chat ((create_initial_state ''q'' []) \<lparr> explanation := Some [] \<rparr>)
     = Inr ((create_initial_state ''q'' [])
              \<lparr> explanation := Some [], final_response := Some [],
                current_node := ''return_chat'', node_history := [''return_chat''] \<rparr>)
   \<and> Some (spec_response_body ((create_initial_state ''q'' []) \<lparr> explanation := Some [] \<rparr>))
       \<noteq> Some []"
  by (simp add: return_chat_def create_initial_state_def spec_response_body_def
        errors_response_def issues_header_def)

section \<open>Code validation (\<open>pipeline/nodes/code.py\<close>)\<close>

text \<open>
  What \<open>compile(code, "<string>", "exec")\<close> does is a parameter of \<open>validate_code\<close>: it
  returns, or raises \<open>SyntaxError\<close> (with its \<open>str(e)\<close>), or raises another exception, which
  \<open>except SyntaxError\<close> does not catch.
\<close>

datatype compile_outcome = Compiled | SyntaxError string | CompileRaised py_exc

definition FORBIDDEN_PATTERNS :: "string list" where
  "FORBIDDEN_PATTERNS =
     [''import os'', ''import sys'', ''import subprocess'', ''import shutil'', ''__import__'',
      ''eval('', ''exec('', ''os.system'', ''os.popen'', ''subprocess.'', ''shutil.'',
      ''.to_csv('', ''.to_excel('', ''rm -rf'', ''DROP TABLE'', ''DELETE FROM'', ''TRUNCATE '']"

definition forbidden_errors :: "string \<Rightarrow> string list" where
  "forbidden_errors code =
     map (\<lambda>pattern. ''Forbidden pattern detected: '' @ pattern)
       (filter (\<lambda>pattern. str_in (lower pattern) (lower code)) FORBIDDEN_PATTERNS)"

definition missing_result_error :: string where
  "missing_result_error = ''Code must define a 'result' variable''"

definition validate_code ::
  "(string \<Rightarrow> compile_outcome) \<Rightarrow> graph_state \<Rightarrow> py_exc + graph_state" where
  "validate_code compile s =
     (case generated_code s of
        None \<Rightarrow>
          Inr (s\<lparr> code_valid := False, validation_errors := [''No code generated''],
                  current_node := ''validate_code'',
                  node_history := node_history s @ [''validate_code''] \<rparr>)
      | Some code \<Rightarrow>
          if code = [] then
            Inr (s\<lparr> code_valid := False, validation_errors := [''No code generated''],
                    current_node := ''validate_code'',
                    node_history := node_history s @ [''validate_code''] \<rparr>)
          else
            (case compile code of
               CompileRaised e \<Rightarrow> Inl e
             | outcome \<Rightarrow>
                 (let errs = forbidden_errors code
                        @ (case outcome of
                             SyntaxError msg \<Rightarrow> [''Syntax error: '' @ msg]
                           | _ \<Rightarrow> [])
                        @ (if \<not> str_in ''result'' code then [missing_result_error] else []);
                      code' = (if \<not> str_in ''import pandas'' code \<and> str_in ''pd.'' code
                               then ''import pandas as pd\<newline>'' @ code else code)
                  in if errs \<noteq> [] then
                       Inr (s\<lparr> code_valid := False, validation_errors := errs,
                               current_node := ''validate_code'',
                               node_history := node_history s @ [''validate_code''] \<rparr>)
                     else
                       Inr (s\<lparr> code_valid := True, validation_errors := [],
                               generated_code := Some code',
                               current_node := ''validate_code'',
                               node_history := node_history s @ [''validate_code''] \<rparr>))))"

text \<open>
  The specification speaks of an identifier named \<open>result\<close>. An identifier of a program
  text is a maximal run of letters, digits and underscores; \<open>has_identifier\<close> says that one
  of these runs is the given name.
\<close>

definition is_ident_char :: "char \<Rightarrow> bool" where
  "is_ident_char c =
     (let n = (of_char c :: nat)
      in (65 \<le> n \<and> n \<le> 90) \<or> (97 \<le> n \<and> n \<le> 122) \<or> (48 \<le> n \<and> n \<le> 57) \<or> n = 95)"

fun ident_runs :: "string \<Rightarrow> string \<Rightarrow> string list" where
  "ident_runs cur [] = (if cur = [] then [] else [cur])"
| "ident_runs cur (c # cs) =
     (if is_ident_char c then ident_runs (cur @ [c]) cs
      else (if cur = [] then [] else [cur]) @ ident_runs [] cs)"

definition has_identifier :: "string \<Rightarrow> string \<Rightarrow> bool" where
  "has_identifier name code = (name \<in> set (ident_runs [] code))"

subsection \<open>Substrings\<close>

lemma str_in_iff: "str_in p c \<longleftrightarrow> (\<exists>pre post. c = pre @ p @ post)"
proof (induction c)
  case Nil
  then show ?case by auto
next
  case (Cons a c)
  show ?case
  proof
    assume "str_in p (a # c)"
    then consider "prefix p (a # c)" | "str_in p c" by auto
    then show "\<exists>pre post. a # c = pre @ p @ post"
    proof cases
      case 1
      then obtain post where "a # c = p @ post" by (auto simp: prefix_def)
      then have "a # c = [] @ p @ post" by simp
      then show ?thesis by blast
    next
      case 2
      with Cons.IH obtain pre post where "c = pre @ p @ post" by blast
      then have "a # c = (a # pre) @ p @ post" by simp
      then show ?thesis by blast
    qed
  next
    assume "\<exists>pre post. a # c = pre @ p @ post"
    then obtain pre post where e: "a # c = pre @ p @ post" by blast
    show "str_in p (a # c)"
    proof (cases pre)
      case Nil
      with e have "prefix p (a # c)" by (simp add: prefix_def)
      then show ?thesis by simp
    next
      case (Cons b pre')
      with e have "c = pre' @ p @ post" by simp
      with Cons.IH have "str_in p c" by blast
      then show ?thesis by simp
    qed
  qed
qed

lemma str_in_lower: "str_in p c \<Longrightarrow> str_in (lower p) (lower c)"
  unfolding lower_def str_in_iff by (metis map_append)

lemma str_in_nonempty: "str_in p c \<Longrightarrow> p \<noteq> [] \<Longrightarrow> c \<noteq> []"
  by (cases c) auto

subsection \<open>Properties of \<open>validate_code\<close>\<close>

lemma forbidden_errors_mem:
  "pattern \<in> set FORBIDDEN_PATTERNS \<Longrightarrow> str_in (lower pattern) (lower code) \<Longrightarrow>
   ''Forbidden pattern detected: '' @ pattern \<in> set (forbidden_errors code)"
  by (auto simp: forbidden_errors_def)

lemma forbidden_pattern_nonempty: "pattern \<in> set FORBIDDEN_PATTERNS \<Longrightarrow> lower pattern \<noteq> []"
  by (auto simp: FORBIDDEN_PATTERNS_def lower_def)

lemma os_system_forbidden: "''os.system'' \<in> set FORBIDDEN_PATTERNS"
  by (simp add: FORBIDDEN_PATTERNS_def)

lemma lower_os_system: "lower ''os.system'' = ''os.system''"
  by code_simp

lemma validate_code_empty:
  "generated_code s = Some [] \<Longrightarrow>
   validate_code compile s =
     Inr (s\<lparr> code_valid := False, validation_errors := [''No code generated''],
             current_node := ''validate_code'',
             node_history := node_history s @ [''validate_code''] \<rparr>)"
  by (simp add: validate_code_def)

text \<open>
  Claim C2, as the code has it. For every code text on which the compile check returns or
  raises \<open>SyntaxError\<close>, \<open>validate_code\<close> returns. The empty text is rejected with the
  error "No code generated". A non-empty text is rejected with the matching error string in
  \<open>validation_errors\<close> when a pattern of the denylist occurs in it case-insensitively, when
  the compile check raises \<open>SyntaxError\<close>, or when the text \<open>result\<close> does not occur in it as
  a substring; text containing \<open>os.system\<close> is rejected with the forbidden-pattern error.
  These are the only ways to be rejected.
\<close>

theorem validate_code_rejects:
  assumes code: "generated_code s = Some code"
    and compile: "\<forall>e. compile code \<noteq> CompileRaised e"
  shows "\<exists>s'. validate_code compile s = Inr s' \<and>
    (code = [] \<longrightarrow> \<not> code_valid s' \<and> validation_errors s' = [''No code generated'']) \<and>
    (\<forall>pattern \<in> set FORBIDDEN_PATTERNS. str_in (lower pattern) (lower code) \<longrightarrow>
        \<not> code_valid s' \<and>
        ''Forbidden pattern detected: '' @ pattern \<in> set (validation_errors s')) \<and>
    (\<forall>msg. code \<noteq> [] \<and> compile code = SyntaxError msg \<longrightarrow>
        \<not> code_valid s' \<and> ''Syntax error: '' @ msg \<in> set (validation_errors s')) \<and>
    (code \<noteq> [] \<and> \<not> str_in ''result'' code \<longrightarrow>
        \<not> code_valid s' \<and> missing_result_error \<in> set (validation_errors s')) \<and>
    (str_in ''os.system'' code \<longrightarrow>
        \<not> code_valid s' \<and>
        ''Forbidden pattern detected: os.system'' \<in> set (validation_errors s')) \<and>
    (code_valid s' \<longleftrightarrow>
        code \<noteq> [] \<and> forbidden_errors code = [] \<and> compile code = Compiled \<and>
        str_in ''result'' code)"
proof (cases "code = []")
  case True
  have no_match: "\<not> str_in (lower pattern) (lower code)"
    if "pattern \<in> set FORBIDDEN_PATTERNS" for pattern
    using that True forbidden_pattern_nonempty[of pattern] by (simp add: lower_def)
  have "\<not> str_in ''os.system'' code"
    using True by simp
  with True no_match validate_code_empty[of s compile] code show ?thesis
    by auto
next
  case False
  define errs where "errs = forbidden_errors code
      @ (case compile code of SyntaxError msg \<Rightarrow> [''Syntax error: '' @ msg] | _ \<Rightarrow> [])
      @ (if \<not> str_in ''result'' code then [missing_result_error] else [])"
  define s' where "s' = (if errs \<noteq> [] then
        s\<lparr> code_valid := False, validation_errors := errs,
           current_node := ''validate_code'',
           node_history := node_history s @ [''validate_code''] \<rparr>
      else s\<lparr> code_valid := True, validation_errors := [],
           generated_code := Some (if \<not> str_in ''import pandas'' code \<and> str_in ''pd.'' code
                               then ''import pandas as pd\<newline>'' @ code else code),
           current_node := ''validate_code'',
           node_history := node_history s @ [''validate_code''] \<rparr>)"
  have run: "validate_code compile s = Inr s'"
    using code False compile
    by (cases "compile code") (simp_all add: validate_code_def s'_def errs_def Let_def)
  have valid: "code_valid s' \<longleftrightarrow> errs = []" and verrs: "validation_errors s' = errs"
    by (simp_all add: s'_def)
  have 1: "\<forall>pattern \<in> set FORBIDDEN_PATTERNS. str_in (lower pattern) (lower code) \<longrightarrow>
        \<not> code_valid s' \<and>
        ''Forbidden pattern detected: '' @ pattern \<in> set (validation_errors s')"
    using forbidden_errors_mem unfolding valid verrs by (fastforce simp: errs_def)
  have 2: "\<forall>msg. code \<noteq> [] \<and> compile code = SyntaxError msg \<longrightarrow>
        \<not> code_valid s' \<and> ''Syntax error: '' @ msg \<in> set (validation_errors s')"
    unfolding valid verrs by (simp add: errs_def)
  have 3: "code \<noteq> [] \<and> \<not> str_in ''result'' code \<longrightarrow>
        \<not> code_valid s' \<and> missing_result_error \<in> set (validation_errors s')"
    unfolding valid verrs by (simp add: errs_def)
  have 4: "str_in ''os.system'' code \<longrightarrow>
        \<not> code_valid s' \<and>
        ''Forbidden pattern detected: os.system'' \<in> set (validation_errors s')"
    using 1 os_system_forbidden str_in_lower[of "''os.system''" code] lower_os_system
    by (metis append_Nil append_Cons)
  have 5: "code_valid s' \<longleftrightarrow>
        code \<noteq> [] \<and> forbidden_errors code = [] \<and> compile code = Compiled \<and>
        str_in ''result'' code"
    unfolding valid using compile False by (cases "compile code") (auto simp: errs_def)
  from run False 1 2 3 4 5 show ?thesis by blast
qed

theorem validate_code_rejects_witness:
  "\<exists>s'. validate_code (\<lambda>code. Compiled)
           ((create_initial_state ''q'' []) \<lparr> generated_code := Some ''os.system(1)'' \<rparr>) = Inr s'
        \<and> \<not> code_valid s'
        \<and> ''Forbidden pattern detected: os.system'' \<in> set (validation_errors s')
        \<and> missing_result_error \<in> set (validation_errors s')"
proof -
  have code: "generated_code ((create_initial_state ''q'' [])
                \<lparr> generated_code := Some ''os.system(1)'' \<rparr>) = Some ''os.system(1)''"
    by simp
  have compile: "\<forall>e. (\<lambda>code. Compiled) ''os.system(1)'' \<noteq> CompileRaised e"
    by simp
  have a: "str_in ''os.system'' ''os.system(1)''"
    by simp
  have b: "''os.system(1)'' \<noteq> [] \<and> \<not> str_in ''result'' ''os.system(1)''"
    by simp
  from validate_code_rejects[OF code compile] a b show ?thesis
    by blast
qed

text \<open>
  The claim as worded fails on a text in which \<open>result\<close> occurs only inside a longer
  name: \<open>results = 1\<close> has no identifier named \<open>result\<close>, compiles, and is accepted.
\<close>

theorem validate_code_counterexample:
  "\<not> has_identifier ''result'' ''results = 1''
   \<and> validate_code (\<lambda>code. Compiled)
         ((create_initial_state ''q'' []) \<lparr> generated_code := Some ''results = 1'' \<rparr>)
       = Inr ((create_initial_state ''q'' [])
                \<lparr> generated_code := Some ''results = 1'', code_valid := True,
                  current_node := ''validate_code'', node_history := [''validate_code''] \<rparr>)"
proof -
  have a: "\<not> has_identifier ''result'' ''results = 1''"
    by code_simp
  have b: "forbidden_errors ''results = 1'' = []"
    by code_simp
  have c: "str_in ''result'' ''results = 1''" "\<not> str_in ''pd.'' ''results = 1''"
    by simp_all
  show ?thesis
    using a b c by (simp add: validate_code_def create_initial_state_def)
qed

section \<open>Cache service (\<open>backend/app/core/cache.py\<close>)\<close>

text \<open>
  The Redis server behind the service, as far as the service uses it: a map from keys to
  entries with an optional expiry instant, the clock passed to each command, and a log of
  the commands received. A key whose expiry instant has passed is gone. \<open>INCR\<close> on a
  missing key stores 1 with no expiry and otherwise adds 1 and keeps the expiry; \<open>EXPIRE\<close>
  sets the expiry of an existing key; \<open>SETEX\<close> stores a string with an expiry. A value
  written by \<open>INCR\<close> is kept as the integer it denotes. A command sent to a server that
  is not \<open>up\<close> raises; so does \<open>INCR\<close> on a string that is no integer.
\<close>

datatype redis_value = RString string | RCounter int

record redis_entry =
  entry_value :: redis_value
  expires_at :: "real option"

datatype redis_cmd = GET string | SETEX string int string | INCR string | EXPIRE string int

record redis =
  up :: bool
  entries :: "string \<rightharpoonup> redis_entry"
  log :: "redis_cmd list"

definition ConnectionError :: py_exc where
  "ConnectionError = PyExc ''ConnectionError'' True ''Error connecting to Redis''"

definition ResponseError :: "string \<Rightarrow> py_exc" where
  "ResponseError msg = PyExc ''ResponseError'' True msg"

definition live :: "real \<Rightarrow> redis \<Rightarrow> string \<Rightarrow> redis_entry option" where
  "live now r key =
     (case entries r key of
        None \<Rightarrow> None
      | Some e \<Rightarrow> (case expires_at e of
                    None \<Rightarrow> Some e
                  | Some t \<Rightarrow> if now < t then Some e else None))"

definition render :: "redis_value \<Rightarrow> string" where
  "render v = (case v of RString s \<Rightarrow> s | RCounter n \<Rightarrow> str_int n)"

definition redis_get :: "real \<Rightarrow> redis \<Rightarrow> string \<Rightarrow> py_exc + (string option \<times> redis)" where
  "redis_get now r key =
     (if \<not> up r then Inl ConnectionError
      else Inr (map_option (render \<circ> entry_value) (live now r key),
                r\<lparr> log := log r @ [GET key] \<rparr>))"

definition redis_setex :: "real \<Rightarrow> redis \<Rightarrow> string \<Rightarrow> int \<Rightarrow> string \<Rightarrow> py_exc + redis" where
  "redis_setex now r key ttl v =
     (if \<not> up r then Inl ConnectionError
      else if ttl \<le> 0 then Inl (ResponseError ''invalid expire time in 'setex' command'')
      else Inr (r\<lparr> entries := (entries r)(key \<mapsto>
                      \<lparr> entry_value = RString v, expires_at = Some (now + of_int ttl) \<rparr>),
                   log := log r @ [SETEX key ttl v] \<rparr>))"

definition redis_incr :: "real \<Rightarrow> redis \<Rightarrow> string \<Rightarrow> py_exc + (int \<times> redis)" where
  "redis_incr now r key =
     (if \<not> up r then Inl ConnectionError
      else (case live now r key of
              None \<Rightarrow>
                Inr (1, r\<lparr> entries := (entries r)(key \<mapsto>
                               \<lparr> entry_value = RCounter 1, expires_at = None \<rparr>),
                            log := log r @ [INCR key] \<rparr>)
            | Some e \<Rightarrow>
                (case entry_value e of
                   RString v \<Rightarrow> Inl (ResponseError ''value is not an integer or out of range'')
                 | RCounter n \<Rightarrow>
                     Inr (n + 1, r\<lparr> entries := (entries r)(key \<mapsto> e\<lparr> entry_value := RCounter (n + 1) \<rparr>),
                                     log := log r @ [INCR key] \<rparr>))))"

definition redis_expire :: "real \<Rightarrow> redis \<Rightarrow> string \<Rightarrow> int \<Rightarrow> py_exc + redis" where
  "redis_expire now r key seconds =
     (if \<not> up r then Inl ConnectionError
      else (case live now r key of
              None \<Rightarrow> Inr (r\<lparr> log := log r @ [EXPIRE key seconds] \<rparr>)
            | Some e \<Rightarrow>
                Inr (r\<lparr> entries :=
                          (if seconds \<le> 0 then (entries r)(key := None)
                           else (entries r)(key \<mapsto> e\<lparr> expires_at := Some (now + of_int seconds) \<rparr>)),
                        log := log r @ [EXPIRE key seconds] \<rparr>)))"

text \<open>
  \<open>CacheService.get\<close> and \<open>CacheService.set\<close>. \<open>json.loads\<close> and \<open>json.dumps\<close> (with the
  encoder of the source) are parameters; \<open>None\<close> is an exception raised by them, which
  \<open>except Exception\<close> turns into a miss or a failed write. A service that never connected
  (\<open>self._redis\<close> is \<open>None\<close>) misses and writes nothing.
\<close>

definition cache_get ::
  "(string \<Rightarrow> 'v option) \<Rightarrow> real \<Rightarrow> redis option \<Rightarrow> string \<Rightarrow> 'v option \<times> redis option" where
  "cache_get loads now conn key =
     (case conn of
        None \<Rightarrow> (None, None)
      | Some r \<Rightarrow>
          (case redis_get now r key of
             Inl e \<Rightarrow> (None, Some r)
           | Inr (v, r1) \<Rightarrow>
               (case v of
                  None \<Rightarrow> (None, Some r1)
                | Some text \<Rightarrow> if text = [] then (None, Some r1) else (loads text, Some r1))))"

definition cache_set ::
  "('v \<Rightarrow> string option) \<Rightarrow> real \<Rightarrow> redis option \<Rightarrow> string \<Rightarrow> 'v \<Rightarrow> int \<Rightarrow> bool \<times> redis option" where
  "cache_set dumps now conn key v ttl =
     (case conn of
        None \<Rightarrow> (False, None)
      | Some r \<Rightarrow>
          (case dumps v of
             None \<Rightarrow> (False, Some r)
           | Some serialized \<Rightarrow>
               (case redis_setex now r key ttl serialized of
                  Inl e \<Rightarrow> (False, Some r)
                | Inr r1 \<Rightarrow> (True, Some r1))))"

definition ANALYSIS_RESULT_TTL :: int where
  "ANALYSIS_RESULT_TTL = 1800"

text \<open>
  The analysis-result key. \<open>hashlib.md5(content.encode()).hexdigest()\<close> is the parameter
  \<open>md5\<close>; \<open>py_repr_int_list\<close> is how an f-string prints a list of integers;
  \<open>hash_query_content\<close> is the text \<open>content\<close> that \<open>_hash_query\<close> digests, built from the
  query as it is passed in.
\<close>

definition py_repr_int_list :: "int list \<Rightarrow> string" where
  "py_repr_int_list xs = ''['' @ py_join '', '' (map str_int xs) @ '']''"

definition analysis_key :: "string \<Rightarrow> string \<Rightarrow> string" where
  "analysis_key session_id query_hash = ''analysis:'' @ session_id @ '':'' @ query_hash"

definition hash_query_content :: "string \<Rightarrow> int list \<Rightarrow> string" where
  "hash_query_content query file_ids = query @ '':'' @ py_repr_int_list (sort file_ids)"

definition hash_query :: "(string \<Rightarrow> string) \<Rightarrow> string \<Rightarrow> int list \<Rightarrow> string" where
  "hash_query md5 query file_ids =
     (let content = hash_query_content query file_ids
      in take 16 (md5 content))"

definition get_analysis_result ::
  "(string \<Rightarrow> string) \<Rightarrow> (string \<Rightarrow> 'v option) \<Rightarrow> real \<Rightarrow> redis option \<Rightarrow>
   string \<Rightarrow> string \<Rightarrow> int list \<Rightarrow> 'v option \<times> redis option" where
  "get_analysis_result md5 loads now conn session_id query file_ids =
     (let query_hash = hash_query md5 query file_ids;
          key = analysis_key session_id query_hash
      in cache_get loads now conn key)"

definition set_analysis_result ::
  "(string \<Rightarrow> string) \<Rightarrow> ('v \<Rightarrow> string option) \<Rightarrow> real \<Rightarrow> redis option \<Rightarrow>
   string \<Rightarrow> string \<Rightarrow> int list \<Rightarrow> 'v \<Rightarrow> bool \<times> redis option" where
  "set_analysis_result md5 dumps now conn session_id query file_ids result =
     (let query_hash = hash_query md5 query file_ids;
          key = analysis_key session_id query_hash
      in cache_set dumps now conn key result ANALYSIS_RESULT_TTL)"


text \<open>
  \<open>check_rate_limit\<close> returns the pair \<open>(is_allowed, remaining)\<close>; any exception of a Redis
  command is caught and the request allowed. \<open>rate_limit_calls\<close> issues one call at each
  instant of a list, in order.
\<close>

definition rate_key :: "string \<Rightarrow> string" where
  "rate_key identifier = ''ratelimit:'' @ identifier"

definition check_rate_limit ::
  "real \<Rightarrow> redis option \<Rightarrow> string \<Rightarrow> int \<Rightarrow> int \<Rightarrow> (bool \<times> int) \<times> redis option" where
  "check_rate_limit now conn identifier limit window_seconds =
     (case conn of
        None \<Rightarrow> ((True, limit), None)
      | Some r \<Rightarrow>
          (let key = rate_key identifier in
           case redis_incr now r key of
             Inl e \<Rightarrow> ((True, limit), Some r)
           | Inr (current, r1) \<Rightarrow>
               (case (if current = 1 then redis_expire now r1 key window_seconds else Inr r1) of
                  Inl e \<Rightarrow> ((True, limit), Some r1)
                | Inr r2 \<Rightarrow> ((current \<le> limit, max 0 (limit - current)), Some r2))))"

fun rate_limit_calls ::
  "redis option \<Rightarrow> string \<Rightarrow> int \<Rightarrow> int \<Rightarrow> real list \<Rightarrow> (bool \<times> int) list \<times> redis option" where
  "rate_limit_calls conn identifier limit window_seconds [] = ([], conn)"
| "rate_limit_calls conn identifier limit window_seconds (t # ts) =
     (case check_rate_limit t conn identifier limit window_seconds of
        (res, conn') \<Rightarrow>
          (case rate_limit_calls conn' identifier limit window_seconds ts of
             (rs, conn'') \<Rightarrow> (res # rs, conn'')))"

subsection \<open>Properties of the analysis-result cache\<close>

text \<open>
  The digested text determines the query and the file ids up to their order: the decimal
  numerals are read back by \<open>nat_of_digits\<close>, no numeral holds a comma or a bracket, and
  the text splits at its last opening bracket.
\<close>

definition digit_value :: "char \<Rightarrow> nat" where
  "digit_value c = of_char c - 48"

definition nat_of_digits :: "string \<Rightarrow> nat" where
  "nat_of_digits s = foldl (\<lambda>a c. 10 * a + digit_value c) 0 s"

definition is_digit :: "char \<Rightarrow> bool" where
  "is_digit c = (48 \<le> (of_char c :: nat) \<and> (of_char c :: nat) \<le> 57)"

definition plain :: "string \<Rightarrow> bool" where
  "plain s = (s \<noteq> [] \<and> CHR '','' \<notin> set s \<and> CHR ''['' \<notin> set s)"

lemma digit_value_digit_char: "d < 10 \<Longrightarrow> digit_value (digit_char d) = d"
  by (simp add: digit_value_def digit_char_def)

lemma is_digit_digit_char: "d < 10 \<Longrightarrow> is_digit (digit_char d)"
  by (simp add: is_digit_def digit_char_def)

lemma nat_of_digits_str_nat: "nat_of_digits (str_nat n) = n"
  supply str_nat.simps [simp del]
proof (induction n rule: str_nat.induct)
  case (1 n)
  show ?case
  proof (cases "n < 10")
    case True
    then show ?thesis
      by (subst str_nat.simps) (simp add: nat_of_digits_def digit_value_digit_char)
  next
    case False
    with 1 have "nat_of_digits (str_nat (n div 10)) = n div 10" by simp
    with False show ?thesis
      by (subst str_nat.simps) (simp add: nat_of_digits_def digit_value_digit_char)
  qed
qed

lemma str_nat_inj: "str_nat m = str_nat n \<Longrightarrow> m = n"
  by (metis nat_of_digits_str_nat)

lemma str_nat_digits: "c \<in> set (str_nat n) \<Longrightarrow> is_digit c"
  supply str_nat.simps [simp del]
proof (induction n rule: str_nat.induct)
  case (1 n)
  show ?case
  proof (cases "n < 10")
    case True
    with 1(2) show ?thesis
      by (subst (asm) str_nat.simps) (simp add: is_digit_digit_char)
  next
    case False
    with 1 show ?thesis
      by (subst (asm) (2) str_nat.simps) (auto simp: is_digit_digit_char)
  qed
qed

lemma str_nat_nonempty: "str_nat n \<noteq> []"
  supply str_nat.simps [simp del]
  by (subst str_nat.simps) simp

lemma minus_not_digit: "\<not> is_digit CHR ''-''"
  by (simp add: is_digit_def)

lemma str_int_inj: "str_int i = str_int j \<Longrightarrow> i = j"
  supply str_nat.simps [simp del]
proof -
  assume eq: "str_int i = str_int j"
  have no: "CHR ''-'' # str_nat a \<noteq> str_nat b" for a b
  proof
    assume "CHR ''-'' # str_nat a = str_nat b"
    then have "CHR ''-'' \<in> set (str_nat b)" by (metis list.set_intros(1))
    then show False using str_nat_digits minus_not_digit by blast
  qed
  show ?thesis
  proof (cases "i < 0")
    case True
    show ?thesis
    proof (cases "j < 0")
      case jn: True
      with True eq have "nat (- i) = nat (- j)" by (simp add: str_int_def str_nat_inj)
      with True jn show ?thesis by simp
    next
      case False
      with True eq no show ?thesis by (simp add: str_int_def)
    qed
  next
    case False
    show ?thesis
    proof (cases "j < 0")
      case True
      with False eq no[of "nat (- j)" "nat i"] show ?thesis by (simp add: str_int_def)
    next
      case jp: False
      with False eq have "nat i = nat j" by (simp add: str_int_def str_nat_inj)
      with False jp show ?thesis by simp
    qed
  qed
qed

lemma plain_str_int: "plain (str_int i)"
  supply str_nat.simps [simp del]
proof -
  have d: "\<not> is_digit CHR '',''" "\<not> is_digit CHR ''[''" by (simp_all add: is_digit_def)
  then have "CHR '','' \<notin> set (str_nat n)" "CHR ''['' \<notin> set (str_nat n)" for n
    using str_nat_digits by blast+
  then show ?thesis
    by (simp add: plain_def str_int_def str_nat_nonempty)
qed

lemma takeWhile_until: "c \<notin> set x \<Longrightarrow> takeWhile (\<lambda>d. d \<noteq> c) (x @ c # r) = x"
  by (induction x) auto

lemma split_at_first:
  assumes "x @ c # r = y @ c # r'" "c \<notin> set x" "c \<notin> set y"
  shows "x = y \<and> r = r'"
proof -
  have "takeWhile (\<lambda>d. d \<noteq> c) (x @ c # r) = x"
    using assms(2) by (rule takeWhile_until)
  moreover have "takeWhile (\<lambda>d. d \<noteq> c) (y @ c # r') = y"
    using assms(3) by (rule takeWhile_until)
  ultimately have "x = y" using assms(1) by simp
  with assms(1) show ?thesis by simp
qed

lemma py_join_inj_sep:
  "\<forall>x\<in>set xs. x \<noteq> [] \<and> c \<notin> set x \<Longrightarrow> \<forall>y\<in>set ys. y \<noteq> [] \<and> c \<notin> set y \<Longrightarrow>
   py_join (c # rest) xs = py_join (c # rest) ys \<Longrightarrow> xs = ys"
proof (induction xs arbitrary: ys rule: induct_list012)
  case 1
  show ?case
  proof (cases ys rule: remdups_adj.cases)
    case 1
    then show ?thesis by simp
  next
    case (2 y)
    with "1.prems" show ?thesis by simp
  next
    case (3 y y' ys')
    with "1.prems" show ?thesis by simp
  qed
next
  case (2 x)
  show ?case
  proof (cases ys rule: remdups_adj.cases)
    case 1
    with "2.prems" show ?thesis by simp
  next
    case (2 y)
    with "2.prems" show ?thesis by simp
  next
    case c3: (3 y y' ys')
    with "2.prems"(3) have "x = y @ (c # rest) @ py_join (c # rest) (y' # ys')" by simp
    then have "c \<in> set x" by simp
    with "2.prems"(1) show ?thesis by simp
  qed
next
  case (3 x x' xs)
  show ?case
  proof (cases ys rule: remdups_adj.cases)
    case 1
    with "3.prems"(3) show ?thesis by simp
  next
    case c2: (2 y)
    with "3.prems"(3) have "y = x @ (c # rest) @ py_join (c # rest) (x' # xs)" by simp
    then have "c \<in> set y" by simp
    with "3.prems"(2) c2 show ?thesis by simp
  next
    case c3: (3 y y' ys')
    with "3.prems"(3) have "x @ c # (rest @ py_join (c # rest) (x' # xs))
                  = y @ c # (rest @ py_join (c # rest) (y' # ys'))"
      by simp
    moreover have "c \<notin> set x" using "3.prems"(1) by simp
    moreover have "c \<notin> set y" using "3.prems"(2) c3 by simp
    ultimately have xy: "x = y \<and> rest @ py_join (c # rest) (x' # xs)
                               = rest @ py_join (c # rest) (y' # ys')"
      by (rule split_at_first)
    then have "py_join (c # rest) (x' # xs) = py_join (c # rest) (y' # ys')" by simp
    moreover have "\<forall>x\<in>set (x' # xs). x \<noteq> [] \<and> c \<notin> set x" using "3.prems"(1) by simp
    moreover have "\<forall>y\<in>set (y' # ys'). y \<noteq> [] \<and> c \<notin> set y" using "3.prems"(2) c3 by simp
    ultimately have "x' # xs = y' # ys'" using "3.IH"(2)[of "y' # ys'"] by blast
    with xy c3 show ?thesis by simp
  qed
qed

lemma py_join_inj:
  assumes "\<forall>x\<in>set xs. plain x" "\<forall>y\<in>set ys. plain y"
    and "py_join '', '' xs = py_join '', '' ys"
  shows "xs = ys"
proof -
  have "\<forall>x\<in>set xs. x \<noteq> [] \<and> CHR '','' \<notin> set x" using assms(1) by (simp add: plain_def)
  moreover have "\<forall>y\<in>set ys. y \<noteq> [] \<and> CHR '','' \<notin> set y" using assms(2) by (simp add: plain_def)
  ultimately show ?thesis using assms(3) by (rule py_join_inj_sep[of xs "CHR '',''" ys "'' ''"])
qed

lemma py_join_chars: "c \<in> set (py_join sep xs) \<Longrightarrow> c \<in> set sep \<or> (\<exists>x\<in>set xs. c \<in> set x)"
  by (induction sep xs rule: py_join.induct) auto

lemma py_repr_int_list_inj: "py_repr_int_list xs = py_repr_int_list ys \<Longrightarrow> xs = ys"
proof -
  assume "py_repr_int_list xs = py_repr_int_list ys"
  then have "py_join '', '' (map str_int xs) = py_join '', '' (map str_int ys)"
    by (simp add: py_repr_int_list_def)
  then have "map str_int xs = map str_int ys"
    by (intro py_join_inj) (simp_all add: plain_str_int)
  moreover have "inj str_int" by (rule injI) (rule str_int_inj)
  ultimately show ?thesis by (simp add: inj_map_eq_map)
qed

lemma bracket_free: "CHR ''['' \<notin> set (py_join '', '' (map str_int xs))"
proof
  assume "CHR ''['' \<in> set (py_join '', '' (map str_int xs))"
  from py_join_chars[OF this] show False
    using plain_str_int by (auto simp: plain_def)
qed

lemma bracket_split:
  assumes "q @ CHR ''['' # b = q' @ CHR ''['' # b'" "CHR ''['' \<notin> set b" "CHR ''['' \<notin> set b'"
  shows "q = q' \<and> b = b'"
proof -
  have "rev b @ CHR ''['' # rev q = rev b' @ CHR ''['' # rev q'"
    using arg_cong[OF assms(1), of rev] by simp
  moreover have "CHR ''['' \<notin> set (rev b)" "CHR ''['' \<notin> set (rev b')"
    using assms(2,3) by simp_all
  ultimately have "rev b = rev b' \<and> rev q = rev q'"
    by (rule split_at_first)
  then show ?thesis by simp
qed

lemma hash_query_content_inj:
  "hash_query_content query file_ids = hash_query_content query' file_ids'
     \<longleftrightarrow> query = query' \<and> mset file_ids = mset file_ids'"
proof
  assume eq: "hash_query_content query file_ids = hash_query_content query' file_ids'"
  let ?b = "py_join '', '' (map str_int (sort file_ids))"
  let ?b' = "py_join '', '' (map str_int (sort file_ids'))"
  from eq have "(query @ '':'') @ CHR ''['' # (?b @ '']'') = (query' @ '':'') @ CHR ''['' # (?b' @ '']'')"
    by (simp add: hash_query_content_def py_repr_int_list_def)
  from bracket_split[OF this] bracket_free[of "sort file_ids"] bracket_free[of "sort file_ids'"]
  have "query = query'" and "?b = ?b'" by simp_all
  then have "py_repr_int_list (sort file_ids) = py_repr_int_list (sort file_ids')"
    by (simp add: py_repr_int_list_def)
  then have "sort file_ids = sort file_ids'" by (rule py_repr_int_list_inj)
  then have "mset (sort file_ids) = mset (sort file_ids')" by simp
  then have "mset file_ids = mset file_ids'" by simp
  with \<open>query = query'\<close> show "query = query' \<and> mset file_ids = mset file_ids'" by simp
next
  assume "query = query' \<and> mset file_ids = mset file_ids'"
  then have "query = query'" "sort file_ids = sort file_ids'"
    by (auto intro: properties_for_sort)
  then show "hash_query_content query file_ids = hash_query_content query' file_ids'"
    by (simp add: hash_query_content_def)
qed

lemma sort_permutation: "mset xs = mset ys \<Longrightarrow> sort xs = sort (ys :: int list)"
  by (rule properties_for_sort) simp_all

lemma hash_query_permutation:
  "mset file_ids = mset file_ids' \<Longrightarrow> hash_query md5 query file_ids = hash_query md5 query file_ids'"
  by (simp add: hash_query_def hash_query_content_def sort_permutation[of file_ids file_ids'])

lemma analysis_key_text: "analysis_key session_id (hash_query md5 query file_ids) = ''analysis:'' @ session_id @ '':''
                 @ take 16 (md5 (hash_query_content query file_ids))"
    by (simp add: analysis_key_def hash_query_def)

lemma hash_query_content_text:
  "hash_query_content query file_ids
     = query @ '':['' @ py_join '', '' (map str_int (sort file_ids)) @ '']''"
  by (simp add: hash_query_content_def py_repr_int_list_def)

lemma get_analysis_result_up: "up r \<Longrightarrow> get_analysis_result md5 loads now (Some r) session_id query file_ids
           = (case live now r (analysis_key session_id (hash_query md5 query file_ids)) of None \<Rightarrow> None
               | Some e \<Rightarrow> if render (entry_value e) = [] then None else loads (render (entry_value e)),
              Some (r\<lparr>log := log r @ [GET (analysis_key session_id (hash_query md5 query file_ids))]\<rparr>))"
  by (simp add: get_analysis_result_def cache_get_def redis_get_def Let_def split: option.splits)

lemma set_analysis_result_up: "up r' \<Longrightarrow> dumps result = Some serialized \<Longrightarrow>
      set_analysis_result md5 dumps now' (Some r') session_id query file_ids' result
           = (True, Some (r'\<lparr> entries := (entries r')(analysis_key session_id (hash_query md5 query file_ids') \<mapsto>
                      \<lparr> entry_value = RString serialized,
                        expires_at = Some (now' + of_int ANALYSIS_RESULT_TTL) \<rparr>),
                   log := log r' @ [SETEX (analysis_key session_id (hash_query md5 query file_ids')) ANALYSIS_RESULT_TTL serialized] \<rparr>))"
    by (simp add: set_analysis_result_def cache_set_def redis_setex_def Let_def
          ANALYSIS_RESULT_TTL_def)


lemma analysis_cache_hit:
  assumes "up r'" and "dumps result = Some serialized" and "t < now' + 1800"
  shows "fst (get_analysis_result md5 loads t
                (snd (set_analysis_result md5 dumps now' (Some r') session_id query file_ids result))
                session_id query file_ids)
         = (if serialized = [] then None else loads serialized)"
proof -
  let ?key = "analysis_key session_id (hash_query md5 query file_ids)"
  let ?r = "r'\<lparr> entries := (entries r')(?key \<mapsto>
                      \<lparr> entry_value = RString serialized,
                        expires_at = Some (now' + of_int ANALYSIS_RESULT_TTL) \<rparr>),
                   log := log r' @ [SETEX ?key ANALYSIS_RESULT_TTL serialized] \<rparr>"
  have set: "snd (set_analysis_result md5 dumps now' (Some r') session_id query file_ids result)
               = Some ?r"
    using assms(1,2) by (simp only: set_analysis_result_up snd_conv)
  have "up ?r"
    using assms(1) by simp
  then have get: "fst (get_analysis_result md5 loads t (Some ?r) session_id query file_ids)
      = (case live t ?r ?key of None \<Rightarrow> None
         | Some e \<Rightarrow> if render (entry_value e) = [] then None else loads (render (entry_value e)))"
    by (simp only: get_analysis_result_up fst_conv)
  have live: "live t ?r ?key
      = Some \<lparr> entry_value = RString serialized,
               expires_at = Some (now' + of_int ANALYSIS_RESULT_TTL) \<rparr>"
    using assms(3) by (simp add: live_def ANALYSIS_RESULT_TTL_def)
  show ?thesis
    unfolding set get live by (simp add: render_def)
qed

text \<open>
  Claim C8, as the code has it. The analysis-result key is \<open>analysis:\<close>, the session id as
  it is, a colon and the first 16 characters of the digest of one text: the query as it
  is passed in, a colon and the printed sorted list of file ids. That text determines
  the query and the file ids up to their order, and nothing else: two calls digest the
  same text exactly when their queries are equal, character by character, and their
  file-id lists are permutations of each other. For file-id lists that are permutations
  of each other, \<open>get_analysis_result\<close> sends \<open>GET\<close> and \<open>set_analysis_result\<close> sends
  \<open>SETEX\<close> on the identical key, so a result stored under one ordering is found under the
  other until its expiry; the key is a function of (session, query, file ids), the same
  at every invocation.
\<close>

theorem analysis_key_permutation:
  fixes md5 :: "string \<Rightarrow> string" and query session_id :: string and file_ids :: "int list"
  assumes perm: "mset file_ids = mset file_ids'"
    and up: "up r" and up': "up r'" and ser: "dumps result = Some serialized"
  defines "key \<equiv> analysis_key session_id (hash_query md5 query file_ids)"
  shows "hash_query md5 query file_ids = hash_query md5 query file_ids'
       \<and> key = ''analysis:'' @ session_id @ '':''
                 @ take 16 (md5 (hash_query_content query file_ids))
       \<and> hash_query_content query file_ids
           = query @ '':['' @ py_join '', '' (map str_int (sort file_ids)) @ '']''
       \<and> (\<forall>other_query other_ids.
             (hash_query_content other_query other_ids = hash_query_content query file_ids)
               = (other_query = query \<and> mset other_ids = mset file_ids))
       \<and> map_option log (snd (get_analysis_result md5 loads now (Some r) session_id query file_ids))
           = Some (log r @ [GET key])
       \<and> map_option log
             (snd (set_analysis_result md5 dumps now' (Some r') session_id query file_ids' result))
           = Some (log r' @ [SETEX key ANALYSIS_RESULT_TTL serialized])
       \<and> (t < now' + 1800 \<longrightarrow>
            fst (get_analysis_result md5 loads t
                   (snd (set_analysis_result md5 dumps now' (Some r') session_id query file_ids' result))
                   session_id query file_ids)
            = (if serialized = [] then None else loads serialized))"
proof -
  have h: "hash_query md5 query file_ids' = hash_query md5 query file_ids"
    using perm by (rule hash_query_permutation[symmetric])
  have h': "hash_query md5 query file_ids = hash_query md5 query file_ids'"
    using perm by (rule hash_query_permutation)
  have k: "key = ''analysis:'' @ session_id @ '':''
                 @ take 16 (md5 (hash_query_content query file_ids))"
    unfolding key_def by (rule analysis_key_text)
  have c: "hash_query_content query file_ids
           = query @ '':['' @ py_join '', '' (map str_int (sort file_ids)) @ '']''"
    by (rule hash_query_content_text)
  have inj: "\<forall>other_query other_ids.
             (hash_query_content other_query other_ids = hash_query_content query file_ids)
               = (other_query = query \<and> mset other_ids = mset file_ids)"
    by (intro allI) (rule hash_query_content_inj)
  have g: "map_option log (snd (get_analysis_result md5 loads now (Some r) session_id query file_ids))
           = Some (log r @ [GET key])"
    using up unfolding key_def by (simp only: get_analysis_result_up snd_conv) simp
  have s: "map_option log
             (snd (set_analysis_result md5 dumps now' (Some r') session_id query file_ids' result))
           = Some (log r' @ [SETEX key ANALYSIS_RESULT_TTL serialized])"
    using up' ser unfolding key_def h[symmetric]
    by (simp only: set_analysis_result_up snd_conv) simp
  have same: "get_analysis_result md5 loads t c session_id query file_ids
            = get_analysis_result md5 loads t c session_id query file_ids'" for c
    by (simp only: get_analysis_result_def h)
  have hit: "t < now' + 1800 \<longrightarrow>
            fst (get_analysis_result md5 loads t
                   (snd (set_analysis_result md5 dumps now' (Some r') session_id query file_ids' result))
                   session_id query file_ids)
            = (if serialized = [] then None else loads serialized)"
    unfolding same using analysis_cache_hit[of r' dumps result serialized, OF up' ser] by blast
  from h' k c inj g s hit show ?thesis
    by (intro conjI)
qed

theorem analysis_key_permutation_witness:
  "hash_query (\<lambda>content. content) ''sum'' [3, 1, 2]
     = hash_query (\<lambda>content. content) ''sum'' [1, 2, 3]
   \<and> analysis_key ''s1'' (hash_query (\<lambda>content. content) ''sum'' [3, 1, 2])
     = ''analysis:s1:sum:[1, 2, 3]''
   \<and> hash_query_content ''sum'' [3, 1, 2] = ''sum:[1, 2, 3]''
   \<and> hash_query_content ''sum'' [1, 2] \<noteq> hash_query_content ''sum'' [3, 1, 2]
   \<and> hash_query_content ''sum '' [3, 1, 2] \<noteq> hash_query_content ''sum'' [3, 1, 2]"
proof -
  have perm: "mset [3, 1, 2 :: int] = mset [1, 2, 3]" by simp
  have up: "up \<lparr> up = True, entries = Map.empty, log = [] \<rparr>" by simp
  have ser: "(\<lambda>v. Some v) ''{}'' = Some ''{}''" by simp
  note t = analysis_key_permutation
         [of "[3, 1, 2]" "[1, 2, 3]" "\<lparr> up = True, entries = Map.empty, log = [] \<rparr>"
             "\<lparr> up = True, entries = Map.empty, log = [] \<rparr>" "\<lambda>v. Some v" "''{}''" "''{}''"
             "\<lambda>content. content" "''sum''" "''s1''", OF perm up up ser]
  have c1: "hash_query (\<lambda>content. content) ''sum'' [3, 1, 2]
          = hash_query (\<lambda>content. content) ''sum'' [1, 2, 3]"
    by (rule t[THEN conjunct1])
  have c3: "hash_query_content ''sum'' [3, 1, 2] = ''sum:[1, 2, 3]''"
    unfolding t[THEN conjunct2, THEN conjunct2, THEN conjunct1] by code_simp
  have c2: "analysis_key ''s1'' (hash_query (\<lambda>content. content) ''sum'' [3, 1, 2])
          = ''analysis:s1:sum:[1, 2, 3]''"
    unfolding t[THEN conjunct2, THEN conjunct1] c3 by simp
  have inj: "(hash_query_content other_query other_ids = hash_query_content ''sum'' [3, 1, 2])
               = (other_query = ''sum'' \<and> mset other_ids = mset [3, 1, 2])" for other_query other_ids
    using t[THEN conjunct2, THEN conjunct2, THEN conjunct2, THEN conjunct1] by (elim allE)
  have c4: "hash_query_content ''sum'' [1, 2] \<noteq> hash_query_content ''sum'' [3, 1, 2]"
    unfolding inj by simp
  have c5: "hash_query_content ''sum '' [3, 1, 2] \<noteq> hash_query_content ''sum'' [3, 1, 2]"
    unfolding inj by simp
  from c1 c2 c3 c4 c5 show ?thesis by (intro conjI)
qed

text \<open>
  The claim as worded fails on the query text: no normalization takes place before the
  digest. \<open>process_message\<close> of the chat service passes the message as received to
  \<open>get_analysis_result\<close> and to \<open>set_analysis_result\<close>, while \<open>ingest_query\<close> strips it only
  in the workflow state. Two messages that differ by a leading blank are the same after
  \<open>strip\<close>, and their keys differ. \<open>md5_table\<close> holds the MD5 digests of the two texts
  digested. The session id is not digested either: it stands in the key as it is.
\<close>

definition md5_table :: "string \<Rightarrow> string" where
  "md5_table content =
     (if content = '' revenue:[1]'' then ''ec7aee5caaaa82e489b00b140d91b461''
      else if content = ''revenue:[1]'' then ''10355f679a3a20c581fae03fd092dc90''
      else [])"

theorem analysis_key_counterexample:
  "strip '' revenue'' = strip ''revenue''
   \<and> hash_query_content '' revenue'' [1] = '' revenue:[1]''
   \<and> hash_query_content ''revenue'' [1] = ''revenue:[1]''
   \<and> analysis_key ''s1'' (hash_query md5_table '' revenue'' [1]) = ''analysis:s1:ec7aee5caaaa82e4''
   \<and> analysis_key ''s1'' (hash_query md5_table ''revenue'' [1]) = ''analysis:s1:10355f679a3a20c5''
   \<and> analysis_key ''s1'' (hash_query md5_table '' revenue'' [1])
       \<noteq> analysis_key ''s1'' (hash_query md5_table ''revenue'' [1])"
  by code_simp

subsection \<open>Properties of the rate limiter\<close>

lemma check_rate_limit_first:
  assumes "up r" and "live t r (rate_key identifier) = None" and "0 < w"
  shows "check_rate_limit t (Some r) identifier limit w =
           ((1 \<le> limit, max 0 (limit - 1)),
            Some (r\<lparr> entries := (entries r)(rate_key identifier \<mapsto>
                         \<lparr> entry_value = RCounter 1, expires_at = Some (t + of_int w) \<rparr>),
                      log := log r @ [INCR (rate_key identifier),
                                      EXPIRE (rate_key identifier) w] \<rparr>))"
  using assms
  by (simp add: check_rate_limit_def redis_incr_def redis_expire_def live_def Let_def)

lemma check_rate_limit_next:
  assumes "up r"
    and "entries r (rate_key identifier) = Some \<lparr> entry_value = RCounter n, expires_at = Some e \<rparr>"
    and "t < e" and "n \<noteq> 0"
  shows "check_rate_limit t (Some r) identifier limit w =
           ((n + 1 \<le> limit, max 0 (limit - (n + 1))),
            Some (r\<lparr> entries := (entries r)(rate_key identifier \<mapsto>
                         \<lparr> entry_value = RCounter (n + 1), expires_at = Some e \<rparr>),
                      log := log r @ [INCR (rate_key identifier)] \<rparr>))"
  using assms
  by (simp add: check_rate_limit_def redis_incr_def live_def Let_def)

lemma upt_0_Suc_map: "[0..<Suc m] = 0 # map Suc [0..<m]"
  by (metis map_Suc_upt upt_conv_Cons zero_less_Suc)

lemma rate_limit_calls_in_window:
  assumes "up r"
    and "entries r (rate_key identifier) = Some \<lparr> entry_value = RCounter n, expires_at = Some e \<rparr>"
    and "\<forall>t \<in> set ts. t < e" and "0 < n"
  shows "rate_limit_calls (Some r) identifier limit w ts =
           (map (\<lambda>i. (n + 1 + int i \<le> limit, max 0 (limit - (n + 1 + int i)))) [0..<length ts],
            Some (r\<lparr> entries := (entries r)(rate_key identifier \<mapsto>
                         \<lparr> entry_value = RCounter (n + int (length ts)), expires_at = Some e \<rparr>),
                      log := log r @ replicate (length ts) (INCR (rate_key identifier)) \<rparr>))"
  using assms
proof (induction ts arbitrary: r n)
  case Nil
  then have "(entries r)(rate_key identifier \<mapsto> \<lparr> entry_value = RCounter n, expires_at = Some e \<rparr>)
               = entries r"
    by (auto simp: fun_eq_iff)
  then show ?case by simp
next
  case (Cons t ts)
  let ?k = "rate_key identifier"
  let ?r1 = "r\<lparr> entries := (entries r)(?k \<mapsto> \<lparr> entry_value = RCounter (n + 1), expires_at = Some e \<rparr>),
                log := log r @ [INCR ?k] \<rparr>"
  have step: "check_rate_limit t (Some r) identifier limit w =
                ((n + 1 \<le> limit, max 0 (limit - (n + 1))), Some ?r1)"
    using Cons.prems by (intro check_rate_limit_next) auto
  have rest: "rate_limit_calls (Some ?r1) identifier limit w ts =
           (map (\<lambda>i. (n + 1 + 1 + int i \<le> limit, max 0 (limit - (n + 1 + 1 + int i)))) [0..<length ts],
            Some (?r1\<lparr> entries := (entries ?r1)(?k \<mapsto>
                         \<lparr> entry_value = RCounter (n + 1 + int (length ts)), expires_at = Some e \<rparr>),
                      log := log ?r1 @ replicate (length ts) (INCR ?k) \<rparr>))"
    using Cons.prems by (intro Cons.IH) auto
  have idx: "map (\<lambda>i. (n + 1 + int i \<le> limit, max 0 (limit - (n + 1 + int i)))) [0..<length (t # ts)]
       = (n + 1 \<le> limit, max 0 (limit - (n + 1)))
         # map (\<lambda>i. (n + 1 + 1 + int i \<le> limit, max 0 (limit - (n + 1 + 1 + int i)))) [0..<length ts]"
    by (simp add: upt_0_Suc_map comp_def algebra_simps del: upt_Suc)
  have fin: "?r1\<lparr> entries := (entries ?r1)(?k \<mapsto>
                    \<lparr> entry_value = RCounter (n + 1 + int (length ts)), expires_at = Some e \<rparr>),
                  log := log ?r1 @ replicate (length ts) (INCR ?k) \<rparr>
       = r\<lparr> entries := (entries r)(?k \<mapsto>
                    \<lparr> entry_value = RCounter (n + int (length (t # ts))), expires_at = Some e \<rparr>),
            log := log r @ replicate (length (t # ts)) (INCR ?k) \<rparr>"
    by (simp add: add.assoc)
  have "rate_limit_calls (Some r) identifier limit w (t # ts) =
          ((n + 1 \<le> limit, max 0 (limit - (n + 1)))
           # map (\<lambda>i. (n + 1 + 1 + int i \<le> limit, max 0 (limit - (n + 1 + 1 + int i)))) [0..<length ts],
           Some (?r1\<lparr> entries := (entries ?r1)(?k \<mapsto>
                         \<lparr> entry_value = RCounter (n + 1 + int (length ts)), expires_at = Some e \<rparr>),
                      log := log ?r1 @ replicate (length ts) (INCR ?k) \<rparr>))"
    by (simp only: rate_limit_calls.simps step rest prod.case)
  then show ?case
    by (simp only: idx fin)
qed


text \<open>
  Claim C9. Let the store be up and hold no live counter for the identifier at the first
  call, and let the further calls fall inside the window opened by the first call. Then
  call number \<open>i\<close> returns \<open>(i \<le> limit, max 0 (limit - i))\<close>, so call number \<open>limit + 1\<close>
  returns \<open>(False, 0)\<close>; \<open>EXPIRE\<close> is sent exactly once, right after the \<open>INCR\<close> that
  returned 1, and the expiry instant stays at the first call's instant plus the window;
  the next call after that instant sends \<open>INCR\<close> and \<open>EXPIRE\<close> again and, for a limit of at
  least 1, returns \<open>(True, limit - 1)\<close>.
\<close>

theorem check_rate_limit_window:
  assumes up: "up r" and fresh: "live t0 r (rate_key identifier) = None" and w: "0 < w"
    and window: "\<forall>t \<in> set ts. t0 \<le> t \<and> t < t0 + of_int w"
    and after: "t0 + of_int w \<le> t'"
  shows "\<exists>r'. rate_limit_calls (Some r) identifier limit w (t0 # ts) =
            (map (\<lambda>i. (int i + 1 \<le> limit, max 0 (limit - (int i + 1)))) [0..<Suc (length ts)],
             Some r')
          \<and> (int (length ts) = limit \<longrightarrow>
               last (fst (rate_limit_calls (Some r) identifier limit w (t0 # ts))) = (False, 0))
          \<and> log r' = log r @ [INCR (rate_key identifier), EXPIRE (rate_key identifier) w]
                        @ replicate (length ts) (INCR (rate_key identifier))
          \<and> entries r' (rate_key identifier) =
               Some \<lparr> entry_value = RCounter (1 + int (length ts)),
                      expires_at = Some (t0 + of_int w) \<rparr>
          \<and> (\<exists>r''. check_rate_limit t' (Some r') identifier limit w =
                       ((1 \<le> limit, max 0 (limit - 1)), Some r'')
                   \<and> log r'' = log r' @ [INCR (rate_key identifier), EXPIRE (rate_key identifier) w])
          \<and> (1 \<le> limit \<longrightarrow>
               fst (check_rate_limit t' (Some r') identifier limit w) = (True, limit - 1))"
proof -
  let ?k = "rate_key identifier"
  let ?r1 = "r\<lparr> entries := (entries r)(?k \<mapsto>
                  \<lparr> entry_value = RCounter 1, expires_at = Some (t0 + of_int w) \<rparr>),
                log := log r @ [INCR ?k, EXPIRE ?k w] \<rparr>"
  let ?r' = "?r1\<lparr> entries := (entries ?r1)(?k \<mapsto>
                  \<lparr> entry_value = RCounter (1 + int (length ts)),
                    expires_at = Some (t0 + of_int w) \<rparr>),
                log := log ?r1 @ replicate (length ts) (INCR ?k) \<rparr>"
  let ?results = "map (\<lambda>i. (int i + 1 \<le> limit, max 0 (limit - (int i + 1)))) [0..<Suc (length ts)]"
  have first: "check_rate_limit t0 (Some r) identifier limit w =
                 ((1 \<le> limit, max 0 (limit - 1)), Some ?r1)"
    using up fresh w by (rule check_rate_limit_first)
  have rest: "rate_limit_calls (Some ?r1) identifier limit w ts =
                (map (\<lambda>i. (1 + 1 + int i \<le> limit, max 0 (limit - (1 + 1 + int i)))) [0..<length ts],
                 Some ?r')"
    using up window by (intro rate_limit_calls_in_window) auto
  have idx: "?results = (1 \<le> limit, max 0 (limit - 1))
       # map (\<lambda>i. (1 + 1 + int i \<le> limit, max 0 (limit - (1 + 1 + int i)))) [0..<length ts]"
    by (simp add: upt_0_Suc_map comp_def algebra_simps del: upt_Suc)
  have "rate_limit_calls (Some r) identifier limit w (t0 # ts) =
          ((1 \<le> limit, max 0 (limit - 1))
           # map (\<lambda>i. (1 + 1 + int i \<le> limit, max 0 (limit - (1 + 1 + int i)))) [0..<length ts],
           Some ?r')"
    by (simp only: rate_limit_calls.simps first rest prod.case)
  then have run: "rate_limit_calls (Some r) identifier limit w (t0 # ts) = (?results, Some ?r')"
    by (simp only: idx)
  have last: "int (length ts) = limit \<longrightarrow>
               last (fst (rate_limit_calls (Some r) identifier limit w (t0 # ts))) = (False, 0)"
  proof -
    have "last ?results = (int (length ts) + 1 \<le> limit, max 0 (limit - (int (length ts) + 1)))"
      by (simp add: last_map del: upt_Suc)
    then show ?thesis
      unfolding run fst_conv by auto
  qed
  have log: "log ?r' = log r @ [INCR ?k, EXPIRE ?k w] @ replicate (length ts) (INCR ?k)"
    by simp
  have entry: "entries ?r' ?k =
      Some \<lparr> entry_value = RCounter (1 + int (length ts)), expires_at = Some (t0 + of_int w) \<rparr>"
    by simp
  have expired: "live t' ?r' ?k = None"
    using after by (simp add: live_def)
  have "up ?r'"
    using up by simp
  from check_rate_limit_first[OF this expired w, of limit]
  have again: "\<exists>r''. check_rate_limit t' (Some ?r') identifier limit w =
                       ((1 \<le> limit, max 0 (limit - 1)), Some r'')
                   \<and> log r'' = log ?r' @ [INCR ?k, EXPIRE ?k w]"
    by simp
  then have remaining: "1 \<le> limit \<longrightarrow>
      fst (check_rate_limit t' (Some ?r') identifier limit w) = (True, limit - 1)"
    by auto
  from run last log entry again remaining show ?thesis
    by blast
qed


theorem check_rate_limit_window_witness:
  "fst (rate_limit_calls (Some \<lparr> up = True, entries = Map.empty, log = [] \<rparr>) ''a'' 2 60 [0, 1, 2])
     = [(True, 1), (True, 0), (False, 0)]
   \<and> fst (check_rate_limit 60
            (snd (rate_limit_calls (Some \<lparr> up = True, entries = Map.empty, log = [] \<rparr>)
                    ''a'' 2 60 [0, 1, 2])) ''a'' 2 60) = (True, 1)"
proof -
  let ?r = "\<lparr> up = True, entries = Map.empty, log = [] \<rparr>"
  have up: "up ?r" by simp
  have fresh: "live 0 ?r (rate_key ''a'') = None" by (simp add: live_def)
  have w: "(0::int) < 60" by simp
  have window: "\<forall>t \<in> set [1, 2::real]. 0 \<le> t \<and> t < 0 + of_int 60" by simp
  have after: "(0::real) + of_int 60 \<le> 60" by simp
  from check_rate_limit_window[OF up fresh w window after, of 2]
  show ?thesis by (auto simp: numeral_2_eq_2 numeral_3_eq_3)
qed

section \<open>Code execution (\<open>pipeline/nodes/code.py\<close>)\<close>

text \<open>
  The environment of \<open>execute_code\<close>: \<open>py_exec\<close> is the interpreter's \<open>exec(code, namespace)\<close>,
  which returns with the namespace the code left or raises; the three readings of
  \<open>time.time()\<close> (before the run, after it, and in the exception handler), taken as real
  numbers; \<open>str\<close> on a value; \<open>traceback.format_exc()\<close> for the exception handled; and
  \<open>str_exc\<close>, what \<open>str(e)\<close> does on an exception raised by the executed code or by the
  conversion of its result: the class of such an exception is whatever the code defines,
  so \<open>str(e)\<close> returns a text or raises. Standard output is taken to accept every text:
  of the four debugging \<open>print\<close> calls only the first of the handler can raise, when it
  formats the exception with \<open>str(e)\<close>.
\<close>

type_synonym namespace = "string \<rightharpoonup> pyval"

datatype exec_outcome = Returned namespace | Raised py_exc

record exec_env =
  py_exec :: "string \<Rightarrow> namespace \<Rightarrow> exec_outcome"
  time_start :: real
  time_after_exec :: real
  time_in_handler :: real
  py_str :: "pyval \<Rightarrow> string"
  format_exc :: "py_exc \<Rightarrow> string"
  str_exc :: "py_exc \<Rightarrow> py_exc + string"

definition initial_namespace :: namespace where
  "initial_namespace =
     [''pd'' \<mapsto> PyObject ''pandas'', ''pandas'' \<mapsto> PyObject ''pandas'',
      ''np'' \<mapsto> PyObject ''numpy'', ''numpy'' \<mapsto> PyObject ''numpy'']"

definition namespace_get :: "namespace \<Rightarrow> string \<Rightarrow> pyval" where
  "namespace_get ns key = (case ns key of None \<Rightarrow> PyNone | Some v \<Rightarrow> v)"

fun convert_to_serializable :: "pyval \<Rightarrow> pyval" where
  "convert_to_serializable (NpInt i) = PyInt i"
| "convert_to_serializable (NpFloat x) = PyFloat x"
| "convert_to_serializable (NdArray xs) = PyList xs"
| "convert_to_serializable (PyDict kvs) =
     PyDict (map (\<lambda>kv. (fst kv, convert_to_serializable (snd kv))) kvs)"
| "convert_to_serializable (PyList xs) = PyList (map convert_to_serializable xs)"
| "convert_to_serializable obj = obj"

definition is_primitive :: "pyval \<Rightarrow> bool" where
  "is_primitive v =
     (case v of PyInt i \<Rightarrow> True | PyFloat x \<Rightarrow> True | PyStr s \<Rightarrow> True | PyBool b \<Rightarrow> True
      | _ \<Rightarrow> False)"

definition build_result_data :: "exec_env \<Rightarrow> pyval \<Rightarrow> py_exc + result_data" where
  "build_result_data env result =
     (case result of
        PyTable to_dict columns shape \<Rightarrow>
          (case to_dict of
             Inl e \<Rightarrow> Inl e
           | Inr records \<Rightarrow>
               (case columns of
                  Inl e \<Rightarrow> Inl e
                | Inr cols \<Rightarrow>
                    (case shape of
                       Inl e \<Rightarrow> Inl e
                     | Inr shp \<Rightarrow>
                         Inr (RD_dataframe (map convert_to_serializable records) cols shp))))
      | PyDict kvs \<Rightarrow> Inr (RD_dict (convert_to_serializable result))
      | PyList xs \<Rightarrow> Inr (RD_list (convert_to_serializable (PyList xs)))
      | PyTuple xs \<Rightarrow> Inr (RD_list (convert_to_serializable (PyList xs)))
      | _ \<Rightarrow>
          (let val = convert_to_serializable result
           in Inr (RD_value (if is_primitive val then val else PyStr (py_str env val)))))"

definition execution_failed :: "exec_env \<Rightarrow> graph_state \<Rightarrow> py_exc \<Rightarrow> py_exc + graph_state" where
  "execution_failed env s e =
     (if \<not> is_Exception e then Inl e
      else
        (let execution_time = (time_in_handler env - time_start env) * 1000;
             error_trace = format_exc env e
         in case str_exc env e of
              Inl raised \<Rightarrow> Inl raised
            | Inr msg \<Rightarrow>
                Inr (s\<lparr> execution_result := Some \<lparr> success = False, error = Some msg,
                            traceback = Some error_trace,
                            execution_time_ms = Some execution_time \<rparr>,
                        errors := errors s @ [''Execution error: '' @ msg],
                        current_node := ''execute_code'',
                        node_history := node_history s @ [''execute_code''] \<rparr>)))"

definition no_valid_code :: "graph_state \<Rightarrow> graph_state" where
  "no_valid_code s =
     s\<lparr> execution_result := Some \<lparr> success = False,
            error = Some ''No valid code to execute'', traceback = None,
            execution_time_ms = None \<rparr>,
        current_node := ''execute_code'',
        node_history := node_history s @ [''execute_code''] \<rparr>"

definition execute_code :: "exec_env \<Rightarrow> graph_state \<Rightarrow> py_exc + graph_state" where
  "execute_code env s =
     (case generated_code s of
        None \<Rightarrow> Inr (no_valid_code s)
      | Some code \<Rightarrow>
          if code = [] \<or> \<not> code_valid s then Inr (no_valid_code s)
          else
            (case py_exec env code initial_namespace of
               Raised e \<Rightarrow> execution_failed env s e
             | Returned namespace \<Rightarrow>
                 (let execution_time = (time_after_exec env - time_start env) * 1000;
                      result = namespace_get namespace ''result''
                  in if result = PyNone then
                       Inr (s\<lparr> execution_result := Some \<lparr> success = False,
                                   error = Some ''No result variable defined'',
                                   traceback = None,
                                   execution_time_ms = Some execution_time \<rparr>,
                               current_node := ''execute_code'',
                               node_history := node_history s @ [''execute_code''] \<rparr>)
                     else
                       (case build_result_data env result of
                          Inl e \<Rightarrow> execution_failed env s e
                        | Inr rd \<Rightarrow>
                            Inr (s\<lparr> execution_result := Some \<lparr> success = True,
                                        error = None, traceback = None,
                                        execution_time_ms = Some execution_time \<rparr>,
                                    result_data := Some rd,
                                    current_node := ''execute_code'',
                                    node_history := node_history s @ [''execute_code''] \<rparr>)))))"


subsection \<open>Properties of \<open>execute_code\<close>\<close>



lemma execution_failed_retry_count:
  "execution_failed env s e = Inr s' \<Longrightarrow> retry_count s' = retry_count s"
  by (auto simp: execution_failed_def Let_def split: if_splits sum.splits)





text \<open>
  An exception class of the executed code whose \<open>__str__\<close> raises \<open>ValueError\<close>: the handler
  catches the exception, formats it, and raises the \<open>ValueError\<close>.
\<close>

lemma execute_code_str_raises:
  "execute_code
     \<lparr> py_exec = (\<lambda>code ns. Raised (PyExc ''E'' True [])),
       time_start = 10, time_after_exec = 11, time_in_handler = 12,
       py_str = (\<lambda>v. []), format_exc = (\<lambda>e. ''Traceback (most recent call last)''),
       str_exc = (\<lambda>e. Inl (PyExc ''ValueError'' True ''boom'')) \<rparr>
     ((create_initial_state ''q'' [])
        \<lparr> generated_code := Some ''result = 1\<newline>raise E()'', code_valid := True \<rparr>)
   = Inl (PyExc ''ValueError'' True ''boom'')"
  by (simp add: execute_code_def execution_failed_def create_initial_state_def)




section \<open>Pipeline nodes (\<open>pipeline/nodes\<close>)\<close>

text \<open>
  The language-model calls are oracles: each gives the outcome of the \<open>try\<close> block of its
  node for the state the node runs in, either the value the block computes or the
  exception it raises. \<open>get_llm\<close> is what building the client does: \<open>None\<close> when it returns,
  \<open>Some e\<close> when it raises \<open>e\<close> (a missing key, an unknown provider). The environment also
  holds the compile check and the executor's environment.
\<close>

record intent_result =
  ir_intent :: "string option"
  ir_operation_type :: "string option"
  ir_files_needed :: "string list"

record pipeline_env =
  get_llm :: "py_exc option"
  intent_oracle :: "graph_state \<Rightarrow> py_exc + intent_result"
  plan_oracle :: "graph_state \<Rightarrow> py_exc + plan option"
  align_oracle :: "graph_state \<Rightarrow> py_exc option"
  code_oracle :: "graph_state \<Rightarrow> py_exc + string"
  compile_check :: "string \<Rightarrow> compile_outcome"
  executor :: exec_env
  trend_oracle :: "graph_state \<Rightarrow> py_exc + string list"
  explain_oracle :: "graph_state \<Rightarrow> py_exc + (string \<times> string list)"

definition visited :: "string \<Rightarrow> graph_state \<Rightarrow> graph_state" where
  "visited name s = s\<lparr> current_node := name, node_history := node_history s @ [name] \<rparr>"

definition ingest_query :: "graph_state \<Rightarrow> graph_state" where
  "ingest_query s =
     (let query = strip (user_query s)
      in if query = [] then
           visited ''ingest_query'' (s\<lparr> errors := errors s @ [''Empty query provided''] \<rparr>)
         else visited ''ingest_query'' (s\<lparr> user_query := query \<rparr>))"

definition files_of :: "graph_state \<Rightarrow> file_info list" where
  "files_of s = (case available_files s of None \<Rightarrow> [] | Some fs \<Rightarrow> fs)"

definition parse_files :: "graph_state \<Rightarrow> graph_state" where
  "parse_files s =
     (if files_of s = [] then
        visited ''parse_files'' (s\<lparr> errors := errors s @ [''No files available for analysis''] \<rparr>)
      else visited ''parse_files'' s)"

definition retrieve_context :: "graph_state \<Rightarrow> graph_state" where
  "retrieve_context s = visited ''retrieve_context'' s"

definition analyze_intent ::
  "py_exc option \<Rightarrow> (py_exc + intent_result) \<Rightarrow> graph_state \<Rightarrow> py_exc + graph_state" where
  "analyze_intent llm outcome s =
     (case llm of
        Some e \<Rightarrow> Inl e
      | None \<Rightarrow>
          (case outcome of
             Inr result \<Rightarrow>
               Inr (visited ''analyze_intent''
                      (s\<lparr> intent := ir_intent result,
                          operation_type := ir_operation_type result,
                          files_to_use := ir_files_needed result \<rparr>))
           | Inl e \<Rightarrow>
               if \<not> is_Exception e then Inl e
               else
                 (case (case available_files s of
                          None \<Rightarrow> [\<lparr> filename = None, filepath = None \<rparr>]
                        | Some fs \<Rightarrow> fs) of
                    [] \<Rightarrow> Inl IndexError
                  | f # fs \<Rightarrow>
                      (let first_file = (case filename f of None \<Rightarrow> [] | Some name \<Rightarrow> name)
                       in Inr (visited ''analyze_intent''
                                 (s\<lparr> intent := Some ''query'',
                                     operation_type := Some ''single_table'',
                                     files_to_use := (if first_file \<noteq> [] then [first_file] else []),
                                     errors := errors s @ [''Intent analysis error: '' @ exc_str e] \<rparr>))))))"

definition plan_analysis ::
  "py_exc option \<Rightarrow> (py_exc + plan option) \<Rightarrow> graph_state \<Rightarrow> py_exc + graph_state" where
  "plan_analysis llm outcome s =
     (case llm of
        Some e \<Rightarrow> Inl e
      | None \<Rightarrow>
          (case outcome of
             Inr p \<Rightarrow> Inr (visited ''plan_analysis'' (s\<lparr> plan := p \<rparr>))
           | Inl e \<Rightarrow>
               if \<not> is_Exception e then Inl e
               else Inr (visited ''plan_analysis''
                           (s\<lparr> plan := Some (PlanDict (operation_type s = Some ''cross_table'')) \<rparr>))))"

definition selected_files :: "graph_state \<Rightarrow> file_info list" where
  "selected_files s =
     filter (\<lambda>f. case filename f of None \<Rightarrow> False | Some name \<Rightarrow> name \<in> set (files_to_use s))
       (files_of s)"

definition align_timeseries :: "py_exc option \<Rightarrow> graph_state \<Rightarrow> py_exc + graph_state" where
  "align_timeseries outcome s =
     (if operation_type s \<notin> {Some ''cross_table'', Some ''temporal''} then
        Inr (visited ''align_timeseries'' s)
      else if length (selected_files s) < 2 then Inr (visited ''align_timeseries'' s)
      else
        (case outcome of
           None \<Rightarrow> Inr (visited ''align_timeseries'' s)
         | Some e \<Rightarrow>
             if \<not> is_Exception e then Inl e
             else Inr (visited ''align_timeseries''
                         (s\<lparr> errors := errors s @ [''Alignment error: '' @ exc_str e] \<rparr>))))"

definition generate_code ::
  "py_exc option \<Rightarrow> (py_exc + string) \<Rightarrow> graph_state \<Rightarrow> py_exc + graph_state" where
  "generate_code llm outcome s =
     (case llm of
        Some e \<Rightarrow> Inl e
      | None \<Rightarrow>
          (case outcome of
             Inr code \<Rightarrow> Inr (visited ''generate_code'' (s\<lparr> generated_code := Some code \<rparr>))
           | Inl e \<Rightarrow>
               if \<not> is_Exception e then Inl e
               else Inr (visited ''generate_code''
                           (s\<lparr> generated_code := None,
                               errors := errors s @ [''Code generation error: '' @ exc_str e] \<rparr>))))"

definition increment_retry :: "graph_state \<Rightarrow> graph_state" where
  "increment_retry s =
     s\<lparr> retry_count := retry_count s + 1,
        node_history := node_history s @ [''increment_retry''] \<rparr>"

definition trend_keywords :: "string list" where
  "trend_keywords = [''trend'', ''growth'', ''change'', ''compare'', ''anomal'', ''pattern'', ''season'']"

definition trend_analysis :: "(py_exc + string list) \<Rightarrow> graph_state \<Rightarrow> py_exc + graph_state" where
  "trend_analysis outcome s =
     (let should_analyze =
            (intent s \<in> {Some ''trend'', Some ''compare''}
             \<or> (\<exists>kw \<in> set trend_keywords. str_in kw (lower (user_query s))))
      in if \<not> should_analyze \<or> result_data s = None then Inr (visited ''trend_analysis'' s)
         else
           (case outcome of
              Inr new_recs \<Rightarrow>
                Inr (visited ''trend_analysis''
                       (s\<lparr> recommendations := take 5 (recommendations s @ new_recs) \<rparr>))
            | Inl e \<Rightarrow>
                if \<not> is_Exception e then Inl e else Inr (visited ''trend_analysis'' s)))"

definition none_get :: string where
  "none_get = [CHR 0x27] @ ''NoneType' object has no attribute 'get'' @ [CHR 0x27]"

definition explain_result ::
  "py_exc option \<Rightarrow> (py_exc + (string \<times> string list)) \<Rightarrow> graph_state \<Rightarrow> py_exc + graph_state" where
  "explain_result llm outcome s =
     (case execution_result s of
        None \<Rightarrow> Inl (AttributeError none_get)
      | Some r \<Rightarrow>
          if \<not> success r then
            Inr (visited ''explain_result''
                   (s\<lparr> explanation := Some (''I encountered an error while analyzing your data: ''
                           @ (case error r of None \<Rightarrow> ''Unknown error'' | Some e \<Rightarrow> e)),
                       recommendations :=
                         [''Please try rephrasing your question'',
                          ''Make sure the data contains the columns you're asking about''] \<rparr>))
          else if result_data s = None then
            Inr (visited ''explain_result''
                   (s\<lparr> explanation := Some ''No results were generated from the analysis.'',
                       recommendations := [''Please try a different query''] \<rparr>))
          else
            (case llm of
               Some e \<Rightarrow> Inl e
             | None \<Rightarrow>
                 (case outcome of
                    Inr (text, recs) \<Rightarrow>
                      Inr (visited ''explain_result''
                             (s\<lparr> explanation := Some text,
                                 recommendations :=
                                   (if recs \<noteq> [] then recs
                                    else [''Consider exploring related metrics'']) \<rparr>))
                  | Inl e \<Rightarrow>
                      if \<not> is_Exception e then Inl e
                      else
                        Inr (visited ''explain_result''
                               (s\<lparr> explanation := Some
                                     ''Analysis complete. Here are the results based on your query.'',
                                   recommendations :=
                                     [''Review the data table for detailed insights''],
                                   errors := errors s
                                     @ [''Explanation generation error: '' @ exc_str e] \<rparr>)))))"

section \<open>The graph (\<open>pipeline/graph.py\<close>)\<close>

text \<open>
  The nodes of \<open>build_graph\<close>, its three routing functions, the edge tables given to
  \<open>add_conditional_edges\<close>, and the edges: \<open>next_node\<close> is the node the orchestrator enters
  after a node returned the given state (\<open>None\<close> is \<open>END\<close>), or the exception a routing
  function raises. \<open>run_node\<close> runs a node in an environment. \<open>rank\<close> decreases along
  every edge, which makes \<open>run\<close> total.
\<close>

datatype node =
    N_ingest_query | N_parse_files | N_retrieve_context | N_analyze_intent | N_plan_analysis
  | N_align_timeseries | N_generate_code | N_increment_retry | N_validate_code
  | N_execute_code | N_trend_analysis | N_explain_result | N_return_chat | N_handle_error

definition no_get :: string where
  "no_get = ''object has no attribute 'get'' @ [CHR 0x27]"

definition should_align_timeseries :: "graph_state \<Rightarrow> py_exc + string" where
  "should_align_timeseries s =
     (if operation_type s \<in> {Some ''cross_table'', Some ''temporal''} then
        (case plan s of
           None \<Rightarrow> Inl (AttributeError none_get)
         | Some PlanNotDict \<Rightarrow> Inl (AttributeError no_get)
         | Some (PlanDict needed) \<Rightarrow>
             if needed then Inr ''align_timeseries'' else Inr ''generate_code'')
      else Inr ''generate_code'')"

definition check_code_validity :: "graph_state \<Rightarrow> string" where
  "check_code_validity s =
     (if code_valid s then ''execute_code''
      else if retry_count s < 2 then ''generate_code''
      else ''handle_error'')"

definition check_execution_success :: "graph_state \<Rightarrow> py_exc + string" where
  "check_execution_success s =
     (case execution_result s of
        None \<Rightarrow> Inl (AttributeError none_get)
      | Some r \<Rightarrow> if success r then Inr ''explain_result'' else Inr ''handle_error'')"

definition KeyError :: "string \<Rightarrow> py_exc" where
  "KeyError key = PyExc ''KeyError'' True key"

definition follow :: "(string \<times> node) list \<Rightarrow> string \<Rightarrow> py_exc + node option" where
  "follow edges label =
     (case map_of edges label of None \<Rightarrow> Inl (KeyError label) | Some n \<Rightarrow> Inr (Some n))"

definition plan_edges :: "(string \<times> node) list" where
  "plan_edges =
     [(''align_timeseries'', N_align_timeseries), (''generate_code'', N_generate_code)]"

definition validity_edges :: "(string \<times> node) list" where
  "validity_edges =
     [(''execute_code'', N_execute_code), (''generate_code'', N_increment_retry),
      (''handle_error'', N_handle_error)]"

definition execution_edges :: "(string \<times> node) list" where
  "execution_edges =
     [(''explain_result'', N_trend_analysis), (''handle_error'', N_handle_error)]"

fun next_node :: "node \<Rightarrow> graph_state \<Rightarrow> py_exc + node option" where
  "next_node N_ingest_query s = Inr (Some N_parse_files)"
| "next_node N_parse_files s = Inr (Some N_retrieve_context)"
| "next_node N_retrieve_context s = Inr (Some N_analyze_intent)"
| "next_node N_analyze_intent s = Inr (Some N_plan_analysis)"
| "next_node N_plan_analysis s =
     (case should_align_timeseries s of
        Inl e \<Rightarrow> Inl e
      | Inr label \<Rightarrow> follow plan_edges label)"
| "next_node N_align_timeseries s = Inr (Some N_generate_code)"
| "next_node N_generate_code s = Inr (Some N_validate_code)"
| "next_node N_validate_code s = follow validity_edges (check_code_validity s)"
| "next_node N_increment_retry s = Inr (Some N_generate_code)"
| "next_node N_execute_code s =
     (case check_execution_success s of
        Inl e \<Rightarrow> Inl e
      | Inr label \<Rightarrow> follow execution_edges label)"
| "next_node N_trend_analysis s = Inr (Some N_explain_result)"
| "next_node N_explain_result s = Inr (Some N_return_chat)"
| "next_node N_return_chat s = Inr None"
| "next_node N_handle_error s = Inr (Some N_return_chat)"

fun run_node :: "pipeline_env \<Rightarrow> node \<Rightarrow> graph_state \<Rightarrow> py_exc + graph_state" where
  "run_node env N_ingest_query s = Inr (ingest_query s)"
| "run_node env N_parse_files s = Inr (parse_files s)"
| "run_node env N_retrieve_context s = Inr (retrieve_context s)"
| "run_node env N_analyze_intent s = analyze_intent (get_llm env) (intent_oracle env s) s"
| "run_node env N_plan_analysis s = plan_analysis (get_llm env) (plan_oracle env s) s"
| "run_node env N_align_timeseries s = align_timeseries (align_oracle env s) s"
| "run_node env N_generate_code s = generate_code (get_llm env) (code_oracle env s) s"
| "run_node env N_increment_retry s = Inr (increment_retry s)"
| "run_node env N_validate_code s = validate_code (compile_check env) s"
| "run_node env N_execute_code s = execute_code (executor env) s"
| "run_node env N_trend_analysis s = trend_analysis (trend_oracle env s) s"
| "run_node env N_explain_result s = explain_result (get_llm env) (explain_oracle env s) s"
| "run_node env N_return_chat s = return_chat s"
| "run_node env N_handle_error s = Inr (handle_error s)"

definition retries_left :: "graph_state \<Rightarrow> nat" where
  "retries_left s = nat (2 - retry_count s)"

fun rank :: "node \<Rightarrow> graph_state \<Rightarrow> nat" where
  "rank N_return_chat s = 0"
| "rank N_handle_error s = 1"
| "rank N_explain_result s = 1"
| "rank N_trend_analysis s = 2"
| "rank N_execute_code s = 3"
| "rank N_increment_retry s = (if retries_left s = 0 then 8 else 4 * retries_left s + 5)"
| "rank N_validate_code s = 4 * retries_left s + 6"
| "rank N_generate_code s = 4 * retries_left s + 7"
| "rank N_align_timeseries s = 4 * retries_left s + 9"
| "rank N_plan_analysis s = 4 * retries_left s + 10"
| "rank N_analyze_intent s = 4 * retries_left s + 11"
| "rank N_retrieve_context s = 4 * retries_left s + 12"
| "rank N_parse_files s = 4 * retries_left s + 13"
| "rank N_ingest_query s = 4 * retries_left s + 14"

lemma validate_code_retry_count:
  "validate_code compile s = Inr s' \<Longrightarrow> retry_count s' = retry_count s"
  by (auto simp: validate_code_def Let_def
           split: option.splits if_splits compile_outcome.splits)

lemma execute_code_retry_count:
  "execute_code env s = Inr s' \<Longrightarrow> retry_count s' = retry_count s"
  by (auto simp: execute_code_def execution_failed_def no_valid_code_def Let_def
           split: option.splits if_splits exec_outcome.splits sum.splits)

lemma return_chat_retry_count:
  "return_chat s = Inr s' \<Longrightarrow> retry_count s' = retry_count s"
  by (auto simp: return_chat_def Let_def split: option.splits if_splits result_data.splits)

lemma run_node_retry_count:
  "run_node env n s = Inr s' \<Longrightarrow>
   retry_count s' = (if n = N_increment_retry then retry_count s + 1 else retry_count s)"
  by (cases n)
     (auto simp: ingest_query_def parse_files_def retrieve_context_def analyze_intent_def
        plan_analysis_def align_timeseries_def generate_code_def increment_retry_def
        trend_analysis_def explain_result_def handle_error_def visited_def Let_def
        validate_code_retry_count execute_code_retry_count return_chat_retry_count
      split: option.splits sum.splits if_splits list.splits prod.splits)

lemma next_node_rank:
  assumes "run_node env n s = Inr s'" and "next_node n s' = Inr (Some n')"
  shows "rank n' s' < rank n s"
proof -
  have rc: "retry_count s' = (if n = N_increment_retry then retry_count s + 1 else retry_count s)"
    using assms(1) by (rule run_node_retry_count)
  show ?thesis
  proof (cases n)
    case N_validate_code
    with assms(2) rc show ?thesis
      by (auto simp: follow_def validity_edges_def check_code_validity_def retries_left_def
               split: if_splits)
  next
    case N_increment_retry
    with assms(2) rc show ?thesis
      by (auto simp: retries_left_def)
  next
    case N_plan_analysis
    with assms(2) rc show ?thesis
      by (auto simp: follow_def plan_edges_def should_align_timeseries_def retries_left_def
               split: if_splits sum.splits option.splits plan.splits)
  next
    case N_execute_code
    with assms(2) rc show ?thesis
      by (auto simp: follow_def execution_edges_def check_execution_success_def
               split: if_splits sum.splits option.splits)
  qed (use assms(2) rc in \<open>auto simp: retries_left_def\<close>)
qed

function run ::
  "pipeline_env \<Rightarrow> node \<Rightarrow> graph_state \<Rightarrow> (node \<times> graph_state) list \<times> (py_exc + graph_state)" where
  "run env n s =
     (case run_node env n s of
        Inl e \<Rightarrow> ([(n, s)], Inl e)
      | Inr s' \<Rightarrow>
          (case next_node n s' of
             Inl e \<Rightarrow> ([(n, s)], Inl e)
           | Inr None \<Rightarrow> ([(n, s)], Inr s')
           | Inr (Some n') \<Rightarrow>
               (case run env n' s' of (visits, outcome) \<Rightarrow> ((n, s) # visits, outcome))))"
  by pat_completeness auto
termination
  by (relation "measure (\<lambda>(env, n, s). rank n s)") (auto intro: next_node_rank)

text \<open>
  \<open>run\<close> returns the nodes entered, each with the state it was entered in, and the
  outcome: the final state, or the exception that ended the run.
\<close>

subsection \<open>Runs as paths of the graph\<close>

declare run.simps [simp del]

lemma run_stop1:
  "run_node env n s = Inl e \<Longrightarrow> run env n s = ([(n, s)], Inl e)"
  by (subst run.simps) simp

lemma run_stop2:
  "run_node env n s = Inr s' \<Longrightarrow> next_node n s' = Inl e \<Longrightarrow> run env n s = ([(n, s)], Inl e)"
  by (subst run.simps) simp

lemma run_stop3:
  "run_node env n s = Inr s' \<Longrightarrow> next_node n s' = Inr None \<Longrightarrow> run env n s = ([(n, s)], Inr s')"
  by (subst run.simps) simp

lemma run_step:
  "run_node env n s = Inr s' \<Longrightarrow> next_node n s' = Inr (Some n') \<Longrightarrow>
   run env n s = ((n, s) # fst (run env n' s'), snd (run env n' s'))"
  by (subst run.simps) (simp split: prod.splits)

lemma run_cases:
  obtains (stop) "fst (run env n s) = [(n, s)]"
  | (step) s' n' where "run_node env n s = Inr s'" "next_node n s' = Inr (Some n')"
      "fst (run env n s) = (n, s) # fst (run env n' s')"
proof (cases "run_node env n s")
  case (Inl e)
  then show ?thesis using stop by (simp add: run_stop1 run_stop2 run_stop3)
next
  case (Inr s')
  show ?thesis
  proof (cases "next_node n s'")
    case (Inl e)
    with Inr show ?thesis using stop by (simp add: run_stop1 run_stop2 run_stop3)
  next
    case nxt: (Inr m)
    show ?thesis
    proof (cases m)
      case None
      with Inr nxt show ?thesis using stop by (simp add: run_stop1 run_stop2 run_stop3)
    next
      case (Some n')
      with Inr nxt show ?thesis using step by (simp add: run_step)
    qed
  qed
qed

lemma run_hd: "\<exists>rest. fst (run env n s) = (n, s) # rest"
  by (rule run_cases[of env n s]) simp_all

lemma run_suffix:
  "fst (run env n0 s0) = pre @ (n, s) # post \<Longrightarrow> fst (run env n s) = (n, s) # post"
proof (induction env n0 s0 arbitrary: pre rule: run.induct)
  case (1 env n0 s0)
  show ?case
  proof (cases pre)
    case Nil
    obtain rest where "fst (run env n0 s0) = (n0, s0) # rest"
      using run_hd by blast
    with "1.prems" Nil have "n0 = n" "s0 = s" by simp_all
    with "1.prems" Nil show ?thesis by simp
  next
    case (Cons p pre')
    show ?thesis
    proof (rule run_cases[of env n0 s0])
      assume "fst (run env n0 s0) = [(n0, s0)]"
      with "1.prems" Cons show ?thesis by simp
    next
      fix s' n'
      assume step: "run_node env n0 s0 = Inr s'" "next_node n0 s' = Inr (Some n')"
        "fst (run env n0 s0) = (n0, s0) # fst (run env n' s')"
      with "1.prems" Cons have "fst (run env n' s') = pre' @ (n, s) # post"
        by simp
      then show ?thesis by (rule "1.IH"[OF step(1,2) refl])
    qed
  qed
qed

lemma run_adjacent:
  assumes "fst (run env n0 s0) = pre @ (n, s) # (n', s') # post"
  shows "run_node env n s = Inr s' \<and> next_node n s' = Inr (Some n')"
proof -
  have v: "fst (run env n s) = (n, s) # (n', s') # post"
    using assms by (rule run_suffix)
  show ?thesis
  proof (rule run_cases[of env n s])
    assume "fst (run env n s) = [(n, s)]"
    with v show ?thesis by simp
  next
    fix t m
    assume step: "run_node env n s = Inr t" "next_node n t = Inr (Some m)"
      "fst (run env n s) = (n, s) # fst (run env m t)"
    with v have r: "fst (run env m t) = (n', s') # post" by simp
    obtain rest where "fst (run env m t) = (m, t) # rest"
      using run_hd by blast
    with r have "m = n'" "t = s'" by simp_all
    with step(1,2) show ?thesis by simp
  qed
qed

lemma run_rank_bound: "(m, t) \<in> set (fst (run env n s)) \<Longrightarrow> rank m t \<le> rank n s"
proof (induction env n s rule: run.induct)
  case (1 env n s)
  show ?case
  proof (rule run_cases[of env n s])
    assume "fst (run env n s) = [(n, s)]"
    with "1.prems" show ?thesis by simp
  next
    fix s' n'
    assume step: "run_node env n s = Inr s'" "next_node n s' = Inr (Some n')"
      "fst (run env n s) = (n, s) # fst (run env n' s')"
    from step(1,2) have less: "rank n' s' < rank n s" by (rule next_node_rank)
    from "1.prems" step(3) have "(m, t) = (n, s) \<or> (m, t) \<in> set (fst (run env n' s'))"
      by simp
    then show ?thesis
    proof
      assume "(m, t) = (n, s)"
      then show ?thesis by simp
    next
      assume "(m, t) \<in> set (fst (run env n' s'))"
      then have "rank m t \<le> rank n' s'" by (rule "1.IH"[OF step(1,2) refl])
      with less show ?thesis by simp
    qed
  qed
qed

subsection \<open>The retry loop\<close>

definition generations :: "(node \<times> graph_state) list \<Rightarrow> nat" where
  "generations visits = length (filter (\<lambda>v. fst v = N_generate_code) visits)"

definition retry_inv :: "node \<Rightarrow> graph_state \<Rightarrow> bool" where
  "retry_inv n s \<longleftrightarrow>
     0 \<le> retry_count s \<and> retry_count s \<le> 2 \<and> (n = N_increment_retry \<longrightarrow> retry_count s \<le> 1)"

fun generations_left :: "node \<Rightarrow> graph_state \<Rightarrow> nat" where
  "generations_left N_return_chat s = 0"
| "generations_left N_handle_error s = 0"
| "generations_left N_explain_result s = 0"
| "generations_left N_trend_analysis s = 0"
| "generations_left N_execute_code s = 0"
| "generations_left N_increment_retry s = nat (2 - retry_count s)"
| "generations_left N_validate_code s = nat (2 - retry_count s)"
| "generations_left n s = nat (3 - retry_count s)"

lemma retry_step:
  assumes "run_node env n s = Inr s'" and "next_node n s' = Inr (Some n')" and "retry_inv n s"
  shows "retry_inv n' s' \<and>
         generations_left n' s' + (if n = N_generate_code then 1 else 0) \<le> generations_left n s"
proof -
  have rc: "retry_count s' = (if n = N_increment_retry then retry_count s + 1 else retry_count s)"
    using assms(1) by (rule run_node_retry_count)
  show ?thesis
  proof (cases n)
    case N_validate_code
    with assms(2,3) rc show ?thesis
      by (auto simp: follow_def validity_edges_def check_code_validity_def retry_inv_def
               split: if_splits)
  next
    case N_increment_retry
    with assms(2,3) rc show ?thesis
      by (auto simp: retry_inv_def)
  next
    case N_plan_analysis
    with assms(2,3) rc show ?thesis
      by (auto simp: follow_def plan_edges_def should_align_timeseries_def retry_inv_def
               split: if_splits sum.splits option.splits plan.splits)
  next
    case N_execute_code
    with assms(2,3) rc show ?thesis
      by (auto simp: follow_def execution_edges_def check_execution_success_def retry_inv_def
               split: if_splits sum.splits option.splits)
  qed (use assms(2,3) rc in \<open>auto simp: retry_inv_def\<close>)
qed

lemma generations_left_generate: "retry_inv N_generate_code s \<Longrightarrow> 1 \<le> generations_left N_generate_code s"
  by (simp add: retry_inv_def) arith

lemma run_retry_inv:
  "retry_inv n s \<Longrightarrow>
     (\<forall>v \<in> set (fst (run env n s)). retry_inv (fst v) (snd v))
     \<and> generations (fst (run env n s)) \<le> generations_left n s"
proof (induction env n s rule: run.induct)
  case (1 env n s)
  have here: "(if n = N_generate_code then 1 else 0) \<le> generations_left n s"
    using "1.prems" generations_left_generate[of s] by (cases "n = N_generate_code") simp_all
  show ?case
  proof (rule run_cases[of env n s])
    assume stop: "fst (run env n s) = [(n, s)]"
    have "generations [(n, s)] = (if n = N_generate_code then 1 else 0)"
      by (simp add: generations_def)
    with here have "generations [(n, s)] \<le> generations_left n s"
      by (simp only:)
    with "1.prems" show ?thesis
      by (simp only: stop list.set ball_simps fst_conv snd_conv simp_thms)
  next
    fix s' n'
    assume step: "run_node env n s = Inr s'" "next_node n s' = Inr (Some n')"
      "fst (run env n s) = (n, s) # fst (run env n' s')"
    from retry_step[OF step(1,2) "1.prems"]
    have inv': "retry_inv n' s'"
      and bound: "generations_left n' s' + (if n = N_generate_code then 1 else 0)
                    \<le> generations_left n s"
      by simp_all
    from "1.IH"[OF step(1,2) refl inv']
    have ih1: "\<forall>v \<in> set (fst (run env n' s')). retry_inv (fst v) (snd v)"
      and ih2: "generations (fst (run env n' s')) \<le> generations_left n' s'"
      by simp_all
    have "generations (fst (run env n s))
            = generations (fst (run env n' s')) + (if n = N_generate_code then 1 else 0)"
      by (simp add: step(3) generations_def)
    with ih2 bound have "generations (fst (run env n s)) \<le> generations_left n s"
      by simp
    moreover have "\<forall>v \<in> set (fst (run env n s)). retry_inv (fst v) (snd v)"
      using ih1 "1.prems" by (simp add: step(3))
    ultimately show ?thesis by simp
  qed
qed

subsection \<open>Routing properties\<close>

lemma next_node_validate:
  "next_node N_validate_code s =
     Inr (Some (if code_valid s then N_execute_code
                else if retry_count s < 2 then N_increment_retry else N_handle_error))"
  by (simp add: follow_def validity_edges_def check_code_validity_def)

lemma next_node_execute:
  "execution_result s = Some r \<Longrightarrow>
   next_node N_execute_code s =
     Inr (Some (if success r then N_trend_analysis else N_handle_error))"
  by (simp add: follow_def execution_edges_def check_execution_success_def)

lemma next_node_to_generate:
  "next_node n s = Inr (Some N_generate_code) \<Longrightarrow>
   n \<in> {N_plan_analysis, N_align_timeseries, N_increment_retry}"
  by (cases n)
     (auto simp: follow_def validity_edges_def execution_edges_def check_code_validity_def
        check_execution_success_def split: if_splits option.splits sum.splits)

lemma next_node_to_increment:
  "next_node n s = Inr (Some N_increment_retry) \<Longrightarrow>
   n = N_validate_code \<and> \<not> code_valid s \<and> retry_count s < 2"
  by (cases n)
     (auto simp: follow_def validity_edges_def execution_edges_def plan_edges_def
        check_code_validity_def check_execution_success_def should_align_timeseries_def
        split: if_splits option.splits sum.splits plan.splits)

lemma initial_retry_inv: "retry_count s0 = 0 \<Longrightarrow> retry_inv N_ingest_query s0"
  by (simp add: retry_inv_def)

lemma create_initial_state_retry_count: "retry_count (create_initial_state query files) = 0"
  by (simp add: create_initial_state_def)

text \<open>
  Claim C1. After \<open>validate_code\<close> the graph goes to \<open>execute_code\<close> when \<open>code_valid\<close>
  holds, otherwise to \<open>increment_retry\<close> when \<open>retry_count < 2\<close>, otherwise to
  \<open>handle_error\<close>; \<open>increment_retry\<close> adds exactly 1 to \<open>retry_count\<close> and its only edge
  leads to \<open>generate_code\<close>. In every run that starts with \<open>retry_count = 0\<close>, as
  \<open>create_initial_state\<close> sets it, and whatever the oracles answer: where \<open>handle_error\<close> is entered right after \<open>validate_code\<close> the code is invalid
  and \<open>retry_count\<close> is 2; \<open>retry_count\<close> stays between 0 and 2 at every node entered;
  and \<open>generate_code\<close> is entered at most 3 times.
\<close>

theorem retry_bound:
  fixes env :: pipeline_env and s0 :: graph_state
  assumes start: "retry_count s0 = 0"
  defines "visits \<equiv> fst (run env N_ingest_query s0)"
  shows "(\<forall>s. next_node N_validate_code s =
              Inr (Some (if code_valid s then N_execute_code
                         else if retry_count s < 2 then N_increment_retry
                         else N_handle_error)))
       \<and> (\<forall>s. run_node env N_increment_retry s = Inr (increment_retry s)
              \<and> retry_count (increment_retry s) = retry_count s + 1
              \<and> next_node N_increment_retry (increment_retry s) = Inr (Some N_generate_code))
       \<and> (\<forall>pre t u post.
              visits = pre @ (N_validate_code, t) # (N_handle_error, u) # post \<longrightarrow>
              \<not> code_valid u \<and> retry_count u = 2)
       \<and> (\<forall>v \<in> set visits. 0 \<le> retry_count (snd v) \<and> retry_count (snd v) \<le> 2)
       \<and> generations visits \<le> 3"
proof -
  have inv: "\<forall>v \<in> set visits. retry_inv (fst v) (snd v)"
    and gen: "generations visits \<le> generations_left N_ingest_query s0"
    using run_retry_inv[OF initial_retry_inv[OF start], of env] by (simp_all add: visits_def)
  have 1: "\<forall>s. next_node N_validate_code s =
              Inr (Some (if code_valid s then N_execute_code
                         else if retry_count s < 2 then N_increment_retry
                         else N_handle_error))"
    by (simp only: next_node_validate simp_thms)
  have 2: "\<forall>s. run_node env N_increment_retry s = Inr (increment_retry s)
              \<and> retry_count (increment_retry s) = retry_count s + 1
              \<and> next_node N_increment_retry (increment_retry s) = Inr (Some N_generate_code)"
    by (simp add: increment_retry_def)
  have 3: "\<forall>pre t u post.
              visits = pre @ (N_validate_code, t) # (N_handle_error, u) # post \<longrightarrow>
              \<not> code_valid u \<and> retry_count u = 2"
  proof (intro allI impI)
    fix pre t u post
    assume v: "visits = pre @ (N_validate_code, t) # (N_handle_error, u) # post"
    then have "next_node N_validate_code u = Inr (Some N_handle_error)"
      unfolding visits_def using run_adjacent by blast
    then have a: "\<not> code_valid u \<and> \<not> retry_count u < 2"
      unfolding next_node_validate by (simp split: if_splits)
    have "(N_handle_error, u) \<in> set visits"
      by (simp add: v)
    with inv have "retry_inv N_handle_error u"
      by fastforce
    with a show "\<not> code_valid u \<and> retry_count u = 2"
      by (simp add: retry_inv_def)
  qed
  have 4: "\<forall>v \<in> set visits. 0 \<le> retry_count (snd v) \<and> retry_count (snd v) \<le> 2"
    using inv by (simp add: retry_inv_def)
  have 5: "generations visits \<le> 3"
    using gen start by simp
  from 1 2 3 4 5 show ?thesis by (intro conjI)
qed

lemma execute_code_sets_result:
  "execute_code env s = Inr s' \<Longrightarrow> \<exists>r. execution_result s' = Some r"
  by (auto simp: execute_code_def execution_failed_def no_valid_code_def Let_def
           split: option.splits if_splits exec_outcome.splits sum.splits)

lemma run_return_chat: "fst (run env N_return_chat s) = [(N_return_chat, s)]"
proof (cases "return_chat s")
  case (Inl e)
  then show ?thesis by (simp add: run_stop1)
next
  case (Inr s')
  then show ?thesis by (simp add: run_stop3[of env N_return_chat s s'])
qed

lemma run_handle_error:
  "fst (run env N_handle_error s) = [(N_handle_error, s), (N_return_chat, handle_error s)]"
  by (simp add: run_step[of env N_handle_error s "handle_error s" N_return_chat] run_return_chat)

lemma after_execute_rank:
  assumes "rank (fst v) (snd v) \<le> 3"
  shows "fst v \<noteq> N_generate_code \<and> fst v \<noteq> N_increment_retry \<and> fst v \<noteq> N_validate_code"
  using assms by (cases "fst v") (auto split: if_splits)

text \<open>
  Claim C4. After \<open>execute_code\<close> the graph goes to \<open>trend_analysis\<close> when
  \<open>execution_result.success\<close> holds and to \<open>handle_error\<close> otherwise, and \<open>trend_analysis\<close>
  leads to \<open>explain_result\<close>. Only \<open>plan_analysis\<close>, \<open>align_timeseries\<close> and
  \<open>increment_retry\<close> lead to \<open>generate_code\<close>, and only the invalid-code branch of
  \<open>validate_code\<close> leads to \<open>increment_retry\<close>. In every run, from any node and state, the
  nodes entered after \<open>execute_code\<close> include no \<open>generate_code\<close>, \<open>increment_retry\<close> or
  \<open>validate_code\<close>; when \<open>execute_code\<close> returns with success the next node entered is
  \<open>trend_analysis\<close>, followed by \<open>explain_result\<close> when \<open>trend_analysis\<close> returns; when it
  returns without success the rest of the run is \<open>handle_error\<close>, \<open>return_chat\<close>.
\<close>

theorem execution_routing:
  fixes env :: pipeline_env
  shows "(\<forall>s r. execution_result s = Some r \<longrightarrow>
              next_node N_execute_code s =
                Inr (Some (if success r then N_trend_analysis else N_handle_error)))
       \<and> (\<forall>s. next_node N_trend_analysis s = Inr (Some N_explain_result))
       \<and> (\<forall>n s. next_node n s = Inr (Some N_generate_code) \<longrightarrow>
              n \<in> {N_plan_analysis, N_align_timeseries, N_increment_retry})
       \<and> (\<forall>n s. next_node n s = Inr (Some N_increment_retry) \<longrightarrow>
              n = N_validate_code \<and> \<not> code_valid s \<and> retry_count s < 2)
       \<and> (\<forall>pre s post. fst (run env n0 s0) = pre @ (N_execute_code, s) # post \<longrightarrow>
              (\<forall>v \<in> set post. fst v \<noteq> N_generate_code \<and> fst v \<noteq> N_increment_retry
                                \<and> fst v \<noteq> N_validate_code)
              \<and> (\<forall>s'. execute_code (executor env) s = Inr s' \<longrightarrow>
                    (\<exists>r. execution_result s' = Some r \<and>
                       (if success r
                        then (\<exists>rest. post = (N_trend_analysis, s') # rest \<and>
                               (\<forall>s''. trend_analysis (trend_oracle env s') s' = Inr s'' \<longrightarrow>
                                  (\<exists>rest'. rest = (N_explain_result, s'') # rest')))
                        else post = [(N_handle_error, s'), (N_return_chat, handle_error s')]))))"
proof (intro conjI allI impI ballI)
  fix s :: graph_state and r assume "execution_result s = Some r"
  then show "next_node N_execute_code s =
                Inr (Some (if success r then N_trend_analysis else N_handle_error))"
    by (rule next_node_execute)
next
  fix s :: graph_state show "next_node N_trend_analysis s = Inr (Some N_explain_result)" by simp
next
  fix n and s :: graph_state assume "next_node n s = Inr (Some N_generate_code)"
  then show "n \<in> {N_plan_analysis, N_align_timeseries, N_increment_retry}"
    by (rule next_node_to_generate)
next
  fix n and s :: graph_state assume a: "next_node n s = Inr (Some N_increment_retry)"
  from next_node_to_increment[OF a] show "n = N_validate_code" by simp
  from next_node_to_increment[OF a] show "\<not> code_valid s" by simp
  from next_node_to_increment[OF a] show "retry_count s < 2" by simp
next
  fix pre post and s :: graph_state and v :: "node \<times> graph_state"
  assume run: "fst (run env n0 s0) = pre @ (N_execute_code, s) # post" and v: "v \<in> set post"
  from run have "fst (run env N_execute_code s) = (N_execute_code, s) # post"
    by (rule run_suffix)
  with v have "(fst v, snd v) \<in> set (fst (run env N_execute_code s))"
    by simp
  then have "rank (fst v) (snd v) \<le> rank N_execute_code s"
    by (rule run_rank_bound)
  then have "rank (fst v) (snd v) \<le> 3" by simp
  from after_execute_rank[OF this]
  show "fst v \<noteq> N_generate_code" "fst v \<noteq> N_increment_retry" "fst v \<noteq> N_validate_code"
    by simp_all
next
  fix pre post and s s' :: graph_state
  assume run: "fst (run env n0 s0) = pre @ (N_execute_code, s) # post"
    and ex: "execute_code (executor env) s = Inr s'"
  from run have here: "fst (run env N_execute_code s) = (N_execute_code, s) # post"
    by (rule run_suffix)
  from ex obtain r where r: "execution_result s' = Some r"
    using execute_code_sets_result by blast
  have node: "run_node env N_execute_code s = Inr s'"
    using ex by simp
  show "\<exists>r. execution_result s' = Some r \<and>
          (if success r
           then (\<exists>rest. post = (N_trend_analysis, s') # rest \<and>
                  (\<forall>s''. trend_analysis (trend_oracle env s') s' = Inr s'' \<longrightarrow>
                     (\<exists>rest'. rest = (N_explain_result, s'') # rest')))
           else post = [(N_handle_error, s'), (N_return_chat, handle_error s')])"
  proof (cases "success r")
    case True
    have nxt: "next_node N_execute_code s' = Inr (Some N_trend_analysis)"
      using next_node_execute[OF r] by (simp only: True if_True)
    from run_step[OF node nxt] here
    have post: "post = fst (run env N_trend_analysis s')" by simp
    have trend: "\<exists>rest. fst (run env N_trend_analysis s') = (N_trend_analysis, s') # rest \<and>
                  (\<forall>s''. trend_analysis (trend_oracle env s') s' = Inr s'' \<longrightarrow>
                     (\<exists>rest'. rest = (N_explain_result, s'') # rest'))"
    proof (cases "trend_analysis (trend_oracle env s') s'")
      case (Inl e)
      then show ?thesis by (simp add: run_stop1)
    next
      case (Inr s'')
      then have "run_node env N_trend_analysis s' = Inr s''" by simp
      from run_step[OF this, of N_explain_result]
      have "fst (run env N_trend_analysis s')
              = (N_trend_analysis, s') # fst (run env N_explain_result s'')"
        by simp
      moreover obtain rest' where "fst (run env N_explain_result s'') = (N_explain_result, s'') # rest'"
        using run_hd by blast
      ultimately show ?thesis using Inr by simp
    qed
    with post r True show ?thesis by simp
  next
    case False
    have nxt: "next_node N_execute_code s' = Inr (Some N_handle_error)"
      using next_node_execute[OF r] by (simp only: False if_False)
    from run_step[OF node nxt] here
    have "post = fst (run env N_handle_error s')" by simp
    with r False show ?thesis by (simp add: run_handle_error)
  qed
qed

subsection \<open>The fallback of \<open>analyze_intent\<close>\<close>

text \<open>
  When the oracle call fails with an exception derived from \<open>Exception\<close> and the state
  has no \<open>available_files\<close> key or a non-empty list of files, the node returns the default
  \<open>intent = query\<close>, \<open>operation_type = single_table\<close>, \<open>files_to_use\<close> the first file's name
  (or nothing when that name is missing or empty), and appends the failure to \<open>errors\<close>.
\<close>

lemma analyze_intent_fallback:
  assumes "is_Exception e" and "available_files s \<noteq> Some []"
  shows "\<exists>s'. analyze_intent None (Inl e) s = Inr s'
           \<and> intent s' = Some ''query'' \<and> operation_type s' = Some ''single_table''
           \<and> files_to_use s' =
               (case available_files s of
                  Some (f # fs) \<Rightarrow>
                    (case filename f of
                       Some name \<Rightarrow> if name \<noteq> [] then [name] else []
                     | None \<Rightarrow> [])
                | _ \<Rightarrow> [])
           \<and> errors s' = errors s @ [''Intent analysis error: '' @ exc_str e]"
  using assms
  by (auto simp: analyze_intent_def visited_def Let_def split: option.splits list.splits)

text \<open>
  Claim C3 fails on the code: with an empty \<open>available_files\<close> list (the state that
  \<open>create_initial_state\<close> builds when no file is uploaded) and a failing oracle call, the
  handler indexes the empty list and \<open>analyze_intent\<close> raises \<open>IndexError\<close>; the run ends
  there with the exception.
\<close>

theorem analyze_intent_empty_files_raises:
  "analyze_intent None (Inl (PyExc ''TimeoutError'' True ''Request timed out''))
     (create_initial_state ''total revenue?'' []) = Inl IndexError"
  by (simp add: analyze_intent_def create_initial_state_def)


subsection \<open>Two sample runs\<close>

text \<open>
  An environment in which every oracle call times out except code generation, which
  returns code that the validator rejects; and the same environment with code that is
  accepted and binds \<open>result\<close> to 42.
\<close>

definition sample_files :: "file_info list" where
  "sample_files = [\<lparr> filename = Some ''sales.csv'', filepath = Some ''/data/sales.csv'' \<rparr>]"

definition sample_executor :: exec_env where
  "sample_executor =
     \<lparr> py_exec = (\<lambda>code ns. Returned (ns(''result'' \<mapsto> PyInt 42))),
       time_start = 10, time_after_exec = 11, time_in_handler = 12,
       py_str = (\<lambda>v. []), format_exc = (\<lambda>e. []),
       str_exc = (\<lambda>e. Inr (exc_str e)) \<rparr>"

definition failing_llm :: py_exc where
  "failing_llm = PyExc ''TimeoutError'' True ''Request timed out''"

definition rejecting_env :: pipeline_env where
  "rejecting_env =
     \<lparr> get_llm = None,
       intent_oracle = (\<lambda>s. Inl failing_llm),
       plan_oracle = (\<lambda>s. Inl failing_llm),
       align_oracle = (\<lambda>s. None),
       code_oracle = (\<lambda>s. Inr ''import os\<newline>result = os.system(1)''),
       compile_check = (\<lambda>code. Compiled),
       executor = sample_executor,
       trend_oracle = (\<lambda>s. Inl failing_llm),
       explain_oracle = (\<lambda>s. Inl failing_llm) \<rparr>"

definition accepting_env :: pipeline_env where
  "accepting_env = rejecting_env \<lparr> code_oracle := (\<lambda>s. Inr ''result = 42'') \<rparr>"

lemma rejecting_run:
  "map (\<lambda>v. (fst v, retry_count (snd v)))
     (fst (run rejecting_env N_ingest_query (create_initial_state ''total revenue?'' sample_files)))
   = [(N_ingest_query, 0), (N_parse_files, 0), (N_retrieve_context, 0),
      (N_analyze_intent, 0), (N_plan_analysis, 0), (N_generate_code, 0),
      (N_validate_code, 0), (N_increment_retry, 0), (N_generate_code, 1),
      (N_validate_code, 1), (N_increment_retry, 1), (N_generate_code, 2),
      (N_validate_code, 2), (N_handle_error, 2), (N_return_chat, 2)]"
  by code_simp

lemma accepting_run:
  "map fst
     (fst (run accepting_env N_ingest_query (create_initial_state ''total revenue?'' sample_files)))
   = [N_ingest_query, N_parse_files, N_retrieve_context, N_analyze_intent, N_plan_analysis,
      N_generate_code, N_validate_code, N_execute_code, N_trend_analysis, N_explain_result,
      N_return_chat]"
  by code_simp

theorem retry_bound_witness:
  "generations
     (fst (run rejecting_env N_ingest_query (create_initial_state ''total revenue?'' sample_files)))
     \<le> 3
   \<and> map (\<lambda>v. (fst v, retry_count (snd v)))
       (fst (run rejecting_env N_ingest_query (create_initial_state ''total revenue?'' sample_files)))
     = [(N_ingest_query, 0), (N_parse_files, 0), (N_retrieve_context, 0),
        (N_analyze_intent, 0), (N_plan_analysis, 0), (N_generate_code, 0),
        (N_validate_code, 0), (N_increment_retry, 0), (N_generate_code, 1),
        (N_validate_code, 1), (N_increment_retry, 1), (N_generate_code, 2),
        (N_validate_code, 2), (N_handle_error, 2), (N_return_chat, 2)]"
proof -
  have "generations
          (fst (run rejecting_env N_ingest_query
                  (create_initial_state ''total revenue?'' sample_files))) \<le> 3"
    by (rule retry_bound[OF create_initial_state_retry_count,
          THEN conjunct2, THEN conjunct2, THEN conjunct2, THEN conjunct2])
  then show ?thesis
    using rejecting_run by (intro conjI)
qed

theorem execution_routing_witness:
  "next_node N_execute_code
     ((create_initial_state ''total revenue?'' sample_files)
        \<lparr> execution_result := Some \<lparr> success = True, error = None, traceback = None,
                                    execution_time_ms = Some 1000 \<rparr> \<rparr>)
     = Inr (Some N_trend_analysis)
   \<and> map fst
       (fst (run accepting_env N_ingest_query (create_initial_state ''total revenue?'' sample_files)))
     = [N_ingest_query, N_parse_files, N_retrieve_context, N_analyze_intent, N_plan_analysis,
        N_generate_code, N_validate_code, N_execute_code, N_trend_analysis, N_explain_result,
        N_return_chat]"
proof -
  let ?s = "(create_initial_state ''total revenue?'' sample_files)
        \<lparr> execution_result := Some \<lparr> success = True, error = None, traceback = None,
                                    execution_time_ms = Some 1000 \<rparr> \<rparr>"
  let ?r = "\<lparr> success = True, error = None, traceback = None, execution_time_ms = Some 1000 \<rparr>"
  have r: "execution_result ?s = Some ?r" by simp
  have "\<forall>s r. execution_result s = Some r \<longrightarrow>
          next_node N_execute_code s
            = Inr (Some (if success r then N_trend_analysis else N_handle_error))"
    by (rule execution_routing[of accepting_env, THEN conjunct1])
  then have "next_node N_execute_code ?s
            = Inr (Some (if success ?r then N_trend_analysis else N_handle_error))"
    using r by blast
  then have "next_node N_execute_code ?s = Inr (Some N_trend_analysis)"
    by (simp only: exec_result.simps if_True)
  then show ?thesis
    using accepting_run by (intro conjI)
qed


end
